theory Spec2Isabelle
  imports
    Complex_Main
    "HOL-Library.Char_ord"
    "HOL-Library.List_Lexorder"
    "HOL-Library.AList"
    "HOL-Library.Log_Nat"
begin

section \<open>Python values\<close>

text \<open>
  A Python float is a finite double, an infinity or NaN. A finite double is represented
  by the real number it denotes; the rounding of \<open>*\<close> and \<open>-\<close> on finite
  values is not modelled (the product and difference are the exact ones).
\<close>

datatype pyfloat = Fin real | PInf | NInf | NaN

text \<open>\<open>a < b\<close> on floats: every comparison with NaN is false.\<close>

fun fl_lt :: "pyfloat \<Rightarrow> pyfloat \<Rightarrow> bool" where
  "fl_lt (Fin x) (Fin y) = (x < y)"
| "fl_lt NaN _ = False"
| "fl_lt _ NaN = False"
| "fl_lt NInf NInf = False"
| "fl_lt NInf _ = True"
| "fl_lt _ NInf = False"
| "fl_lt PInf _ = False"
| "fl_lt (Fin x) PInf = True"

text \<open>\<open>min(a, b)\<close> of Python: the first argument, unless the second is smaller.\<close>

definition py_min :: "pyfloat \<Rightarrow> pyfloat \<Rightarrow> pyfloat" where
  "py_min a b = (if fl_lt b a then b else a)"

definition fl_negative :: "pyfloat \<Rightarrow> bool" where
  "fl_negative a = (case a of Fin x \<Rightarrow> x < 0 | NInf \<Rightarrow> True | _ \<Rightarrow> False)"

fun fl_mul :: "pyfloat \<Rightarrow> pyfloat \<Rightarrow> pyfloat" where
  "fl_mul (Fin x) (Fin y) = Fin (x * y)"
| "fl_mul NaN _ = NaN"
| "fl_mul _ NaN = NaN"
| "fl_mul a b =
     (if a = Fin 0 \<or> b = Fin 0 then NaN
      else if fl_negative a \<noteq> fl_negative b then NInf else PInf)"

text \<open>\<open>bool(f)\<close>: only zero is false (NaN and the infinities are true).\<close>

definition fl_truthy :: "pyfloat \<Rightarrow> bool" where
  "fl_truthy f = (f \<noteq> Fin 0)"

text \<open>
  The values \<open>json.load\<close> and \<open>resp.json()\<close> produce. A dict is the list of its
  items in insertion order; \<open>None\<close> is \<open>JNull\<close>. A string is the list of the bytes of
  its UTF-8 encoding, whose lexicographic order is the order of Python strings.
\<close>

datatype json =
    JNull
  | JBool bool
  | JInt int
  | JFloat pyfloat
  | JStr string
  | JList "json list"
  | JDict "(string \<times> json) list"

text \<open>Truthiness, as \<open>if x\<close>, \<open>not x\<close> and \<open>x or y\<close> test it.\<close>

fun truthy :: "json \<Rightarrow> bool" where
  "truthy JNull = False"
| "truthy (JBool b) = b"
| "truthy (JInt i) = (i \<noteq> 0)"
| "truthy (JFloat f) = fl_truthy f"
| "truthy (JStr s) = (s \<noteq> [])"
| "truthy (JList xs) = (xs \<noteq> [])"
| "truthy (JDict kv) = (kv \<noteq> [])"

definition py_or :: "json \<Rightarrow> json \<Rightarrow> json" where
  "py_or a b = (if truthy a then a else b)"

text \<open>\<open>d.get(k)\<close> and \<open>d.get(k, default)\<close>.\<close>

definition dict_get :: "(string \<times> json) list \<Rightarrow> string \<Rightarrow> json" where
  "dict_get d k = (case map_of d k of None \<Rightarrow> JNull | Some v \<Rightarrow> v)"

definition dict_get_default :: "(string \<times> json) list \<Rightarrow> string \<Rightarrow> json \<Rightarrow> json" where
  "dict_get_default d k dflt = (case map_of d k of None \<Rightarrow> dflt | Some v \<Rightarrow> v)"

section \<open>Exceptions\<close>

text \<open>
  \<open>RetryableError\<close> carries its \<open>retry_after\<close>. \<open>RequestException\<close> stands for the
  transport errors of the HTTP library and \<open>HTTPError\<close> for the one of
  \<open>raise_for_status\<close> (a subclass of it); \<open>ValueError\<close> includes JSONDecodeError.
\<close>

datatype exn =
    RetryableError "pyfloat option"
  | RequestException
  | HTTPError int
  | ValueError
  | TypeError
  | AttributeError
  | OverflowError
  | OSError

definition bindE :: "exn + 'a \<Rightarrow> ('a \<Rightarrow> exn + 'b) \<Rightarrow> exn + 'b" where
  "bindE r f = (case r of Inl e \<Rightarrow> Inl e | Inr v \<Rightarrow> f v)"

text \<open>\<open>try: r except (TypeError, ValueError): dflt\<close>\<close>

definition except_type_value :: "exn + 'a \<Rightarrow> 'a \<Rightarrow> exn + 'a" where
  "except_type_value r dflt =
     (case r of
        Inl TypeError \<Rightarrow> Inr dflt
      | Inl ValueError \<Rightarrow> Inr dflt
      | _ \<Rightarrow> r)"

section \<open>Builtin conversions\<close>

text \<open>
  The parsers of \<open>int(s)\<close> and \<open>float(s)\<close> on strings (\<open>None\<close>: ValueError), \<open>str(v)\<close>
  on a value that is not a string, and the format \<open>.2f\<close> are parameters.
\<close>

record builtins =
  int_of_str :: "string \<Rightarrow> int option"
  float_of_str :: "string \<Rightarrow> pyfloat option"
  str_of :: "json \<Rightarrow> string"
  format_2f :: "pyfloat \<Rightarrow> string"

text \<open>
  \<open>float(i)\<close> on an int: the nearest double, ties to even, and OverflowError beyond the
  range of doubles.
\<close>

definition float_of_int :: "int \<Rightarrow> exn + pyfloat" where
  "float_of_int i =
     (let a = \<bar>i\<bar> in
      if a < 2 ^ 53 then Inr (Fin (of_int i))
      else
        let s = nat (bitlen a) - 53;
            q = a div 2 ^ s;
            r = a mod 2 ^ s;
            h = 2 ^ (s - 1);
            q' = (if r > h \<or> (r = h \<and> odd q) then q + 1 else q);
            v = q' * 2 ^ s
        in if v \<ge> 2 ^ 1024 then Inl OverflowError
           else Inr (Fin (of_int (sgn i * v))))"

fun py_float :: "builtins \<Rightarrow> json \<Rightarrow> exn + pyfloat" where
  "py_float B JNull = Inl TypeError"
| "py_float B (JBool b) = Inr (Fin (if b then 1 else 0))"
| "py_float B (JInt i) = float_of_int i"
| "py_float B (JFloat f) = Inr f"
| "py_float B (JStr s) =
     (case float_of_str B s of None \<Rightarrow> Inl ValueError | Some f \<Rightarrow> Inr f)"
| "py_float B (JList xs) = Inl TypeError"
| "py_float B (JDict kv) = Inl TypeError"

text \<open>\<open>int(v)\<close>: a float is truncated towards zero; NaN and the infinities raise.\<close>

fun py_int :: "builtins \<Rightarrow> json \<Rightarrow> exn + int" where
  "py_int B JNull = Inl TypeError"
| "py_int B (JBool b) = Inr (if b then 1 else 0)"
| "py_int B (JInt i) = Inr i"
| "py_int B (JFloat (Fin x)) = Inr (if x \<ge> 0 then \<lfloor>x\<rfloor> else \<lceil>x\<rceil>)"
| "py_int B (JFloat NaN) = Inl ValueError"
| "py_int B (JFloat PInf) = Inl OverflowError"
| "py_int B (JFloat NInf) = Inl OverflowError"
| "py_int B (JStr s) =
     (case int_of_str B s of None \<Rightarrow> Inl ValueError | Some i \<Rightarrow> Inr i)"
| "py_int B (JList xs) = Inl TypeError"
| "py_int B (JDict kv) = Inl TypeError"

definition py_str :: "builtins \<Rightarrow> json \<Rightarrow> string" where
  "py_str B v = (case v of JStr s \<Rightarrow> s | _ \<Rightarrow> str_of B v)"

section \<open>format_price\<close>


section \<open>The normalizer\<close>

record ModelCapabilities =
  vision :: bool
  reasoning :: bool
  function_calling :: bool
  web_search :: bool
  code_optimized :: bool
  response_schema :: bool

definition ModelCapabilities_default :: ModelCapabilities where
  "ModelCapabilities_default =
     \<lparr>vision = False, reasoning = False, function_calling = False,
      web_search = False, code_optimized = False, response_schema = False\<rparr>"

definition ModelCapabilities_from_dict :: "json \<Rightarrow> ModelCapabilities" where
  "ModelCapabilities_from_dict data =
     (case data of
        JDict d \<Rightarrow>
          \<lparr>vision = truthy (dict_get d ''supportsVision''),
           reasoning = truthy (dict_get d ''supportsReasoning''),
           function_calling = truthy (dict_get d ''supportsFunctionCalling''),
           web_search = truthy (dict_get d ''supportsWebSearch''),
           code_optimized = truthy (dict_get d ''optimizedForCode''),
           response_schema = truthy (dict_get d ''supportsResponseSchema'')\<rparr>
      | _ \<Rightarrow> ModelCapabilities_default)"

record ModelPricing =
  input_usd :: "pyfloat option"
  output_usd :: "pyfloat option"

definition extract_price :: "builtins \<Rightarrow> (string \<times> json) list \<Rightarrow> string \<Rightarrow> exn + pyfloat option" where
  "extract_price B data key =
     (case dict_get data key of
        JDict sub \<Rightarrow>
          (case dict_get sub ''usd'' of
             JNull \<Rightarrow> Inr None
           | val \<Rightarrow> except_type_value (bindE (py_float B val) (\<lambda>f. Inr (Some f))) None)
      | _ \<Rightarrow> Inr None)"

definition ModelPricing_from_dict :: "builtins \<Rightarrow> json \<Rightarrow> exn + ModelPricing" where
  "ModelPricing_from_dict B data =
     (case data of
        JDict d \<Rightarrow>
          bindE (extract_price B d ''input'') (\<lambda>i.
          bindE (extract_price B d ''output'') (\<lambda>out.
          Inr \<lparr>input_usd = i, output_usd = out\<rparr>))
      | _ \<Rightarrow> Inr \<lparr>input_usd = None, output_usd = None\<rparr>)"

text \<open>
  The fields are typed by annotations only: \<open>model_type\<close> holds whatever
  \<open>data.get("type") or fallback_type\<close> evaluates to.
\<close>

record Model =
  model_id :: string
  name :: string
  model_type :: json
  context_tokens :: int
  default_temperature :: pyfloat
  capabilities :: ModelCapabilities
  pricing :: ModelPricing

text \<open>\<open>constraints.get("temperature") or {}\<close>: only a dict has \<open>get\<close>.\<close>

definition temperature_of :: "json \<Rightarrow> exn + json" where
  "temperature_of constraints =
     (case constraints of
        JDict c \<Rightarrow> Inr (py_or (dict_get c ''temperature'') (JDict []))
      | _ \<Rightarrow> Inl AttributeError)"

text \<open>\<open>isinstance(dt, (int, float))\<close>: a bool is an int.\<close>

definition default_temp_of :: "builtins \<Rightarrow> json \<Rightarrow> exn + pyfloat" where
  "default_temp_of B temp_obj =
     (case temp_obj of
        JDict t \<Rightarrow>
          (case dict_get t ''default'' of
             JBool b \<Rightarrow> py_float B (JBool b)
           | JInt i \<Rightarrow> py_float B (JInt i)
           | JFloat f \<Rightarrow> py_float B (JFloat f)
           | _ \<Rightarrow> Inr (Fin (7 / 10)))
      | _ \<Rightarrow> Inr (Fin (7 / 10)))"

definition model_spec_of :: "(string \<times> json) list \<Rightarrow> (string \<times> json) list" where
  "model_spec_of data = (case dict_get data ''model_spec'' of JDict s \<Rightarrow> s | _ \<Rightarrow> [])"

definition from_api_response :: "builtins \<Rightarrow> (string \<times> json) list \<Rightarrow> json \<Rightarrow> exn + Model option" where
  "from_api_response B data fallback_type =
     (case dict_get data ''id'' of
        JStr mid \<Rightarrow>
          if mid = [] then Inr None
          else
            let spec = model_spec_of data;
                mtype = py_or (dict_get data ''type'') fallback_type
            in
            bindE (except_type_value
                     (py_int B (dict_get_default spec ''availableContextTokens'' (JInt 32768)))
                     32768) (\<lambda>context.
            bindE (temperature_of (py_or (dict_get spec ''constraints'') (JDict []))) (\<lambda>temp_obj.
            bindE (default_temp_of B temp_obj) (\<lambda>default_temp.
            bindE (ModelPricing_from_dict B (dict_get spec ''pricing'')) (\<lambda>pr.
            Inr (Some
              \<lparr>model_id = mid,
               name = py_str B (py_or (dict_get spec ''name'') (JStr mid)),
               model_type = mtype,
               context_tokens = context,
               default_temperature = default_temp,
               capabilities = ModelCapabilities_from_dict (dict_get spec ''capabilities''),
               pricing = pr\<rparr>)))))
      | _ \<Rightarrow> Inr None)"

section \<open>The environment\<close>

text \<open>
  What one run of the program sees from outside. The network is a function giving the
  outcome of the \<open>k\<close>-th \<open>session.get\<close> of the run for the requested type. The world
  holds the rest: \<open>calls\<close> counts the invocations of the retried operation, \<open>slept\<close> records
  the arguments of the \<open>time.sleep\<close> calls that returned (oldest first), \<open>clock\<close> gives
  the successive readings of the time, \<open>files\<close> is the cache directory and \<open>disk_ok\<close>
  tells whether writing to it succeeds.
\<close>

datatype http_result =
    ConnectionFailed
  | Response (status_code: int) (retry_after_header: "string option") (body: "json option")

text \<open>
  A cache file: its modification time (\<open>None\<close>: \<open>stat\<close> fails) and what \<open>json.load\<close>
  reads from it (\<open>None\<close>: the file cannot be opened or parsed).
\<close>

datatype cache_file = CacheFile (st_mtime: "real option") (content: "json option")

text \<open>
  What is at a path. \<open>path.exists()\<close> is a \<open>stat\<close> of the path: it answers False when
  there is no such file, and raises the OSError of any other failure of the \<open>stat\<close> (a file
  name too long for the file system, a directory that may not be searched); such a path
  is \<open>Unreachable\<close>.
\<close>

datatype path_state = Absent | Unreachable | Present cache_file

type_synonym network = "nat \<Rightarrow> string \<Rightarrow> http_result"

record world =
  calls :: nat
  slept :: "pyfloat list"
  clock :: "nat \<Rightarrow> real"
  ticks :: nat
  files :: "string \<Rightarrow> path_state"
  disk_ok :: bool

definition time_time :: "world \<Rightarrow> real \<times> world" where
  "time_time w = (clock w (ticks w), w\<lparr>ticks := Suc (ticks w)\<rparr>)"

text \<open>
  \<open>time.sleep\<close> raises on a negative length, on NaN and on an infinity (finite lengths
  beyond the range of the platform's timer are not modelled).
\<close>

definition time_sleep :: "pyfloat \<Rightarrow> world \<Rightarrow> (exn + unit) \<times> world" where
  "time_sleep secs w =
     (case secs of
        Fin x \<Rightarrow> if x < 0 then (Inl ValueError, w) else (Inr (), w\<lparr>slept := slept w @ [secs]\<rparr>)
      | PInf \<Rightarrow> (Inl OverflowError, w)
      | NInf \<Rightarrow> (Inl ValueError, w)
      | NaN \<Rightarrow> (Inl ValueError, w))"

section \<open>retry_with_backoff\<close>

record retry_config =
  retries :: int
  delay :: pyfloat
  backoff :: pyfloat
  max_delay :: pyfloat

definition default_retry :: retry_config where
  "default_retry = \<lparr>retries = 3, delay = Fin 1, backoff = Fin 2, max_delay = Fin 60\<rparr>"

text \<open>The two \<open>except\<close> clauses of the wrapper.\<close>

fun retryable :: "exn \<Rightarrow> bool" where
  "retryable (RetryableError h) = True"
| "retryable RequestException = True"
| "retryable (HTTPError c) = True"
| "retryable ValueError = True"
| "retryable _ = False"

text \<open>\<open>wait = e.retry_after if e.retry_after else current_delay\<close>, and \<open>current_delay\<close>
  for the other retryable exceptions.\<close>

fun wait_for :: "exn \<Rightarrow> pyfloat \<Rightarrow> pyfloat" where
  "wait_for (RetryableError (Some h)) current_delay = (if fl_truthy h then h else current_delay)"
| "wait_for _ current_delay = current_delay"

text \<open>
  The loop \<open>for attempt in range(retries + 1)\<close>, by the number of iterations left. The
  result \<open>None\<close> is the wrapper falling off its end without an exception.
\<close>

fun retry_loop ::
  "retry_config \<Rightarrow> (world \<Rightarrow> (exn + 'a) \<times> world) \<Rightarrow> nat \<Rightarrow> int \<Rightarrow> pyfloat \<Rightarrow> exn option \<Rightarrow> world
     \<Rightarrow> (exn + 'a option) \<times> world" where
  "retry_loop cfg func 0 attempt current_delay last_exception w =
     (case last_exception of Some e \<Rightarrow> (Inl e, w) | None \<Rightarrow> (Inr None, w))"
| "retry_loop cfg func (Suc k) attempt current_delay last_exception w =
     (case func w of
        (Inr v, w1) \<Rightarrow> (Inr (Some v), w1)
      | (Inl e, w1) \<Rightarrow>
          if retryable e then
            if attempt < retries cfg then
              (case time_sleep (py_min (wait_for e current_delay) (max_delay cfg)) w1 of
                 (Inl e', w2) \<Rightarrow> (Inl e', w2)
               | (Inr u, w2) \<Rightarrow>
                   retry_loop cfg func k (attempt + 1)
                     (py_min (fl_mul current_delay (backoff cfg)) (max_delay cfg)) (Some e) w2)
            else retry_loop cfg func k (attempt + 1) current_delay (Some e) w1
          else (Inl e, w1))"

definition retry_with_backoff ::
  "retry_config \<Rightarrow> (world \<Rightarrow> (exn + 'a) \<times> world) \<Rightarrow> world \<Rightarrow> (exn + 'a option) \<times> world" where
  "retry_with_backoff cfg func w =
     retry_loop cfg func (nat (retries cfg + 1)) 0 (delay cfg) None w"

text \<open>
  An operation given by its outcomes: the \<open>k\<close>-th invocation of the run returns or raises
  \<open>outs k\<close>, and every invocation is counted in \<open>calls\<close>.
\<close>

definition scripted :: "(nat \<Rightarrow> exn + 'a) \<Rightarrow> world \<Rightarrow> (exn + 'a) \<times> world" where
  "scripted outs w = (outs (calls w), w\<lparr>calls := Suc (calls w)\<rparr>)"

section \<open>CacheManager\<close>

record CacheManager =
  cache_dir :: string
  fresh_ttl :: int
  stale_ttl :: int

definition default_cache :: CacheManager where
  "default_cache = \<lparr>cache_dir = ''~/.cache/venice_sync'', fresh_ttl = 300, stale_ttl = 86400\<rparr>"

definition cache_path :: "CacheManager \<Rightarrow> string \<Rightarrow> string" where
  "cache_path c key = cache_dir c @ ''/'' @ key @ ''.json''"

definition path_stat :: "cache_file \<Rightarrow> exn + real" where
  "path_stat f = (case st_mtime f of None \<Rightarrow> Inl OSError | Some t \<Rightarrow> Inr t)"

definition json_load :: "cache_file \<Rightarrow> exn + json" where
  "json_load f = (case content f of None \<Rightarrow> Inl ValueError | Some d \<Rightarrow> Inr d)"

text \<open>
  \<open>get\<close>: \<open>if not path.exists()\<close> stands before the \<open>try\<close> block, so the OSError it
  raises at an unreachable path leaves the call; every exception of the \<open>try\<close> block is
  caught and gives \<open>(None, False)\<close>.
\<close>

definition CacheManager_get :: "CacheManager \<Rightarrow> string \<Rightarrow> world \<Rightarrow> (exn + json \<times> bool) \<times> world" where
  "CacheManager_get c key w =
     (case files w (cache_path c key) of
        Unreachable \<Rightarrow> (Inl OSError, w)
      | Absent \<Rightarrow> (Inr (JNull, False), w)
      | Present f \<Rightarrow>
          (case path_stat f of
             Inl e \<Rightarrow> (Inr (JNull, False), w)
           | Inr mtime \<Rightarrow>
               let (now, w1) = time_time w;
                   age = now - mtime
               in (case json_load f of
                     Inl e \<Rightarrow> (Inr (JNull, False), w1)
                   | Inr data \<Rightarrow>
                       if age \<le> of_int (fresh_ttl c) then (Inr (data, True), w1)
                       else if age \<le> of_int (stale_ttl c) then (Inr (data, False), w1)
                       else (Inr (JNull, False), w1))))"

text \<open>\<open>get_stale\<close>: the same test stands before its \<open>try\<close> block.\<close>

definition CacheManager_get_stale :: "CacheManager \<Rightarrow> string \<Rightarrow> world \<Rightarrow> (exn + json) \<times> world" where
  "CacheManager_get_stale c key w =
     (case files w (cache_path c key) of
        Unreachable \<Rightarrow> (Inl OSError, w)
      | Absent \<Rightarrow> (Inr JNull, w)
      | Present f \<Rightarrow>
          (case path_stat f of
             Inl e \<Rightarrow> (Inr JNull, w)
           | Inr mtime \<Rightarrow>
               let (now, w1) = time_time w;
                   age = now - mtime
               in if age \<le> of_int (stale_ttl c) then
                    (case json_load f of
                       Inl e \<Rightarrow> (Inr JNull, w1)
                     | Inr data \<Rightarrow> (Inr data, w1))
                  else (Inr JNull, w1)))"

text \<open>
  \<open>set\<close>: the write is atomic and its failure is swallowed (nothing can be written at an
  unreachable path); the new file carries the time of the write.
\<close>

definition CacheManager_set :: "CacheManager \<Rightarrow> string \<Rightarrow> json \<Rightarrow> world \<Rightarrow> world" where
  "CacheManager_set c key data w =
     (if disk_ok w \<and> files w (cache_path c key) \<noteq> Unreachable then
        let (now, w1) = time_time w
        in w1\<lparr>files := (files w1)(cache_path c key := Present (CacheFile (Some now) (Some data)))\<rparr>
      else w)"

section \<open>VeniceClient\<close>

datatype ModelType = TEXT | IMAGE | CODE | ALL_TYPES

fun type_value :: "ModelType \<Rightarrow> string" where
  "type_value TEXT = ''text''"
| "type_value IMAGE = ''image''"
| "type_value CODE = ''code''"
| "type_value ALL_TYPES = ''all''"

text \<open>The body of \<open>_fetch\<close> for the request \<open>GET models?type=t\<close>, and \<open>_fetch\<close> itself.\<close>

definition response_outcome :: "builtins \<Rightarrow> http_result \<Rightarrow> exn + json" where
  "response_outcome B resp =
     (case resp of
        ConnectionFailed \<Rightarrow> Inl RequestException
      | Response status hdr bdy \<Rightarrow>
          if status = 429 then
            Inl (RetryableError (case hdr of None \<Rightarrow> None | Some h \<Rightarrow> float_of_str B h))
          else if 400 \<le> status \<and> status < 600 then Inl (HTTPError status)
          else (case bdy of None \<Rightarrow> Inl ValueError | Some j \<Rightarrow> Inr j))"

definition fetch_body :: "builtins \<Rightarrow> network \<Rightarrow> string \<Rightarrow> world \<Rightarrow> (exn + json) \<times> world" where
  "fetch_body B net t w = (response_outcome B (net (calls w) t), w\<lparr>calls := Suc (calls w)\<rparr>)"

definition fetch :: "builtins \<Rightarrow> network \<Rightarrow> string \<Rightarrow> world \<Rightarrow> (exn + json option) \<times> world" where
  "fetch B net t w = retry_with_backoff default_retry (fetch_body B net t) w"

text \<open>\<open>_fetch_models_for_type\<close>: every exception gives the empty list.\<close>

definition fetch_models_for_type :: "builtins \<Rightarrow> network \<Rightarrow> string \<Rightarrow> world \<Rightarrow> json list \<times> world" where
  "fetch_models_for_type B net t w =
     (case fetch B net t w of
        (Inl e, w1) \<Rightarrow> ([], w1)
      | (Inr None, w1) \<Rightarrow> ([], w1)
      | (Inr (Some data), w1) \<Rightarrow>
          (case data of
             JDict d \<Rightarrow>
               (case dict_get_default d ''data'' (JList []) of
                  JList models \<Rightarrow> (models, w1)
                | _ \<Rightarrow> ([], w1))
           | _ \<Rightarrow> ([], w1)))"

text \<open>\<open>p in s\<close> on strings.\<close>

fun str_contains :: "string \<Rightarrow> string \<Rightarrow> bool" where
  "str_contains [] p = (p = [])"
| "str_contains (c # cs) p = (take (length p) (c # cs) = p \<or> str_contains cs p)"

text \<open>
  \<open>if "type" not in m: m["_fallback_type"] = t\<close> on one element of the fetched list, which
  need not be a dict.
\<close>

fun annotate1 :: "string \<Rightarrow> json \<Rightarrow> exn + json" where
  "annotate1 t (JDict d) =
     Inr (if ''type'' \<in> fst ` set d then JDict d
          else JDict (AList.update ''_fallback_type'' (JStr t) d))"
| "annotate1 t (JStr s) = (if str_contains s ''type'' then Inr (JStr s) else Inl TypeError)"
| "annotate1 t (JList xs) = (if JStr ''type'' \<in> set xs then Inr (JList xs) else Inl TypeError)"
| "annotate1 t m = Inl TypeError"

text \<open>
  The loop over the fetched list. The list is mutated in place: when an element raises,
  the elements before it stay annotated.
\<close>

fun annotate :: "string \<Rightarrow> json list \<Rightarrow> json list \<times> exn option" where
  "annotate t [] = ([], None)"
| "annotate t (m # ms) =
     (case annotate1 t m of
        Inl e \<Rightarrow> (m # ms, Some e)
      | Inr m' \<Rightarrow> (let (ms', err) = annotate t ms in (m' # ms', err)))"

text \<open>\<open>for raw in raw_models\<close> on whatever the cache held.\<close>

fun py_iter :: "json \<Rightarrow> exn + json list" where
  "py_iter (JList xs) = Inr xs"
| "py_iter (JDict d) = Inr (map (\<lambda>kv. JStr (fst kv)) d)"
| "py_iter (JStr s) = Inr (map (\<lambda>c. JStr [c]) s)"
| "py_iter v = Inl TypeError"

text \<open>\<open>raw.pop("_fallback_type", default_type)\<close> and the call of the normalizer.\<close>

fun parse_one :: "builtins \<Rightarrow> string \<Rightarrow> json \<Rightarrow> exn + Model option" where
  "parse_one B default_type (JDict d) =
     from_api_response B (AList.delete ''_fallback_type'' d)
       (dict_get_default d ''_fallback_type'' (JStr default_type))"
| "parse_one B default_type (JList xs) = Inl TypeError"
| "parse_one B default_type raw = Inl AttributeError"

fun parse_loop :: "builtins \<Rightarrow> string \<Rightarrow> json list \<Rightarrow> exn + Model list" where
  "parse_loop B default_type [] = Inr []"
| "parse_loop B default_type (raw # rest) =
     bindE (parse_one B default_type raw) (\<lambda>model.
     bindE (parse_loop B default_type rest) (\<lambda>models.
     Inr (case model of Some m \<Rightarrow> m # models | None \<Rightarrow> models)))"

definition parse_models :: "builtins \<Rightarrow> json \<Rightarrow> ModelType \<Rightarrow> exn + Model list" where
  "parse_models B raw_models mt =
     (let default_type = (if mt \<noteq> ALL_TYPES then type_value mt else ''text'') in
      bindE (py_iter raw_models) (\<lambda>raws.
      bindE (parse_loop B default_type raws) (\<lambda>models.
      Inr (sort_key model_id models))))"

text \<open>
  The \<open>try\<close> block of \<open>fetch_models\<close> up to the cache write: the raw records collected,
  and the exception that left the block, if any.
\<close>

fun gather_all ::
  "builtins \<Rightarrow> network \<Rightarrow> ModelType list \<Rightarrow> json list \<Rightarrow> world \<Rightarrow> (json list \<times> exn option) \<times> world" where
  "gather_all B net [] raw_models w = ((raw_models, None), w)"
| "gather_all B net (mt # mts) raw_models w =
     (let (fetched, w1) = fetch_models_for_type B net (type_value mt) w in
      case annotate (type_value mt) fetched of
        (fetched', Some e) \<Rightarrow> ((raw_models, Some e), w1)
      | (fetched', None) \<Rightarrow> gather_all B net mts (raw_models @ fetched') w1)"

definition gather :: "builtins \<Rightarrow> network \<Rightarrow> ModelType \<Rightarrow> world \<Rightarrow> (json list \<times> exn option) \<times> world" where
  "gather B net mt w =
     (if mt = ALL_TYPES then gather_all B net [TEXT, IMAGE, CODE] [] w
      else
        let (fetched, w1) = fetch_models_for_type B net (type_value mt) w
        in (annotate (type_value mt) fetched, w1))"

text \<open>\<open>fetch_models\<close> from the live fetch on (after the cache check).\<close>

definition live_fetch ::
  "builtins \<Rightarrow> network \<Rightarrow> CacheManager option \<Rightarrow> ModelType \<Rightarrow> world \<Rightarrow> (exn + Model list) \<times> world" where
  "live_fetch B net cache mt w =
     (let cache_key = ''models_'' @ type_value mt;
          ((raw_models, fetch_error), w1) = gather B net mt w;
          w2 = (case cache of
                  Some c \<Rightarrow>
                    if raw_models \<noteq> [] \<and> fetch_error = None
                    then CacheManager_set c cache_key (JList raw_models) w1 else w1
                | None \<Rightarrow> w1)
      in case cache of
           Some c \<Rightarrow>
             if raw_models = [] then
               (case CacheManager_get_stale c cache_key w2 of
                  (Inl e, w3) \<Rightarrow> (Inl e, w3)
                | (Inr stale_data, w3) \<Rightarrow>
                    if truthy stale_data then (parse_models B stale_data mt, w3)
                    else (case fetch_error of
                            Some e \<Rightarrow> (Inl e, w3)
                          | None \<Rightarrow> (parse_models B (JList raw_models) mt, w3)))
             else (parse_models B (JList raw_models) mt, w2)
         | None \<Rightarrow> (parse_models B (JList raw_models) mt, w2))"

definition fetch_models ::
  "builtins \<Rightarrow> network \<Rightarrow> CacheManager option \<Rightarrow> ModelType \<Rightarrow> world \<Rightarrow> (exn + Model list) \<times> world" where
  "fetch_models B net cache mt w =
     (let cache_key = ''models_'' @ type_value mt in
      case cache of
        Some c \<Rightarrow>
          (case CacheManager_get c cache_key w of
             (Inl e, w1) \<Rightarrow> (Inl e, w1)
           | (Inr (cached_data, is_fresh), w1) \<Rightarrow>
               if truthy cached_data \<and> is_fresh then (parse_models B cached_data mt, w1)
               else live_fetch B net cache mt w1)
      | None \<Rightarrow> live_fetch B net cache mt w)"

section \<open>Notions used in the properties\<close>

text \<open>
  The id a raw record yields an entry for: the value of \<open>id\<close> when it is a non-empty
  string. \<open>valid_ids\<close> lists these ids in the order of the raw records.
\<close>

fun record_id :: "json \<Rightarrow> string option" where
  "record_id (JDict d) =
     (case dict_get d ''id'' of JStr s \<Rightarrow> if s = [] then None else Some s | _ \<Rightarrow> None)"
| "record_id v = None"

definition valid_ids :: "json list \<Rightarrow> string list" where
  "valid_ids raws = List.map_filter record_id raws"

text \<open>
  The delay schedule in the words of the specification: the delay starts at \<open>D\<close> and
  after each wait becomes \<open>min(delay * B, M)\<close>.
\<close>

definition next_delay :: "retry_config \<Rightarrow> pyfloat \<Rightarrow> pyfloat" where
  "next_delay cfg d = py_min (fl_mul d (backoff cfg)) (max_delay cfg)"

primrec delay_after :: "retry_config \<Rightarrow> pyfloat \<Rightarrow> nat \<Rightarrow> pyfloat" where
  "delay_after cfg d 0 = d"
| "delay_after cfg d (Suc i) = next_delay cfg (delay_after cfg d i)"

definition delay_at :: "retry_config \<Rightarrow> nat \<Rightarrow> pyfloat" where
  "delay_at cfg i = delay_after cfg (delay cfg) i"

text \<open>The retry-after hint an outcome carries, if any.\<close>

definition retry_after_of :: "exn + 'a \<Rightarrow> pyfloat option" where
  "retry_after_of out = (case out of Inl (RetryableError h) \<Rightarrow> h | _ \<Rightarrow> None)"

text \<open>
  The wait in the words of the specification: \<open>min(hint_or_current_delay, M)\<close>, with the
  hint whenever the failure carries one.
\<close>

definition hinted_wait :: "retry_config \<Rightarrow> pyfloat option \<Rightarrow> pyfloat \<Rightarrow> pyfloat" where
  "hinted_wait cfg hint d =
     py_min (case hint of Some h \<Rightarrow> h | None \<Rightarrow> d) (max_delay cfg)"

text \<open>The same wait with a hint of zero counted as no hint.\<close>

definition nonzero_hinted_wait :: "retry_config \<Rightarrow> pyfloat option \<Rightarrow> pyfloat \<Rightarrow> pyfloat" where
  "nonzero_hinted_wait cfg hint d =
     py_min (case hint of Some h \<Rightarrow> if h = Fin 0 then d else h | None \<Rightarrow> d) (max_delay cfg)"

text \<open>The lengths \<open>time.sleep\<close> accepts.\<close>

definition sleep_ok :: "pyfloat \<Rightarrow> bool" where
  "sleep_ok x = (case x of Fin r \<Rightarrow> 0 \<le> r | _ \<Rightarrow> False)"

text \<open>
  The raw records a fetch call resolves: the value \<open>_parse_models\<close> is called with on the
  path the call takes (the fresh cached data, the records fetched live, or the stale cached
  data), or the exception raised before that call.
\<close>

definition live_raw_models ::
  "builtins \<Rightarrow> network \<Rightarrow> CacheManager option \<Rightarrow> ModelType \<Rightarrow> world \<Rightarrow> (exn + json) \<times> world" where
  "live_raw_models B net cache mt w =
     (let cache_key = ''models_'' @ type_value mt;
          ((raw_models, fetch_error), w1) = gather B net mt w;
          w2 = (case cache of
                  Some c \<Rightarrow>
                    if raw_models \<noteq> [] \<and> fetch_error = None
                    then CacheManager_set c cache_key (JList raw_models) w1 else w1
                | None \<Rightarrow> w1)
      in case cache of
           Some c \<Rightarrow>
             if raw_models = [] then
               (case CacheManager_get_stale c cache_key w2 of
                  (Inl e, w3) \<Rightarrow> (Inl e, w3)
                | (Inr stale_data, w3) \<Rightarrow>
                    if truthy stale_data then (Inr stale_data, w3)
                    else (case fetch_error of
                            Some e \<Rightarrow> (Inl e, w3)
                          | None \<Rightarrow> (Inr (JList raw_models), w3)))
             else (Inr (JList raw_models), w2)
         | None \<Rightarrow> (Inr (JList raw_models), w2))"

definition resolved_raw_models ::
  "builtins \<Rightarrow> network \<Rightarrow> CacheManager option \<Rightarrow> ModelType \<Rightarrow> world \<Rightarrow> (exn + json) \<times> world" where
  "resolved_raw_models B net cache mt w =
     (let cache_key = ''models_'' @ type_value mt in
      case cache of
        Some c \<Rightarrow>
          (case CacheManager_get c cache_key w of
             (Inl e, w1) \<Rightarrow> (Inl e, w1)
           | (Inr (cached_data, is_fresh), w1) \<Rightarrow>
               if truthy cached_data \<and> is_fresh then (Inr cached_data, w1)
               else live_raw_models B net cache mt w1)
      | None \<Rightarrow> live_raw_models B net cache mt w)"

section \<open>Scenarios\<close>

text \<open>
  The builtin conversions of the scenarios. Their records hold no numeric strings, no
  names that are not strings and no prices other than zero, so that the conversions are
  never consulted there.
\<close>

definition no_numeric_strings :: builtins where
  "no_numeric_strings =
     \<lparr>int_of_str = (\<lambda>s. None), float_of_str = (\<lambda>s. None), str_of = (\<lambda>v. []),
      format_2f = (\<lambda>f. [])\<rparr>"

text \<open>The entry of a record that holds nothing but its id, under the partition \<open>t\<close>.\<close>

definition plain_model :: "string \<Rightarrow> string \<Rightarrow> Model" where
  "plain_model mid t =
     \<lparr>model_id = mid, name = mid, model_type = JStr t, context_tokens = 32768,
      default_temperature = Fin (7 / 10), capabilities = ModelCapabilities_default,
      pricing = \<lparr>input_usd = None, output_usd = None\<rparr>\<rparr>"

text \<open>A run that starts at time 0 with an empty cache directory.\<close>

definition start_world :: world where
  "start_world =
     \<lparr>calls = 0, slept = [], clock = (\<lambda>n. 0), ticks = 0, files = (\<lambda>p. Absent), disk_ok = True\<rparr>"

text \<open>Every request fails in the transport.\<close>

definition net_offline :: network where
  "net_offline k t = ConnectionFailed"

text \<open>Every request succeeds with the body \<open>j\<close>.\<close>

definition net_ok :: "json \<Rightarrow> network" where
  "net_ok j k t = Response 200 None (Some j)"

definition catalog :: "json list \<Rightarrow> json" where
  "catalog records = JDict [(''data'', JList records)]"

text \<open>An operation that is rate limited with the hint \<open>h\<close> on every invocation.\<close>

definition always_limited :: "pyfloat \<Rightarrow> nat \<Rightarrow> exn + json" where
  "always_limited h k = Inl (RetryableError (Some h))"

text \<open>An operation that is rate limited with the hint \<open>h\<close> once and then returns.\<close>

fun limited_once :: "pyfloat \<Rightarrow> nat \<Rightarrow> exn + json" where
  "limited_once h 0 = Inl (RetryableError (Some h))"
| "limited_once h (Suc k) = Inr JNull"

text \<open>The cache directory holding one file for \<open>key\<close>, written at time \<open>mtime\<close>, read at \<open>now\<close>.\<close>

definition cached_world :: "CacheManager \<Rightarrow> string \<Rightarrow> real \<Rightarrow> json option \<Rightarrow> real \<Rightarrow> world" where
  "cached_world c key mtime data now =
     \<lparr>calls = 0, slept = [], clock = (\<lambda>n. now), ticks = 0,
      files = (\<lambda>p. if p = cache_path c key then Present (CacheFile (Some mtime) data) else Absent),
      disk_ok = True\<rparr>"

text \<open>
  The cache directory exists and is empty, and the file for \<open>key\<close> cannot be reached: the
  \<open>stat\<close> of its path fails, as it does for a file name of more than 255 bytes.
\<close>

definition unreachable_world :: "CacheManager \<Rightarrow> string \<Rightarrow> world" where
  "unreachable_world c key =
     \<lparr>calls = 0, slept = [], clock = (\<lambda>n. 0), ticks = 0,
      files = (\<lambda>p. if p = cache_path c key then Unreachable else Absent),
      disk_ok = True\<rparr>"

definition long_key :: string where
  "long_key = replicate 251 (CHR ''k'')"

section \<open>The normalizer: lemmas\<close>



lemma from_api_response_id:
  "from_api_response B data fb = Inr (Some m) \<Longrightarrow>
     dict_get data ''id'' = JStr (model_id m) \<and> model_id m \<noteq> []"
  by (auto simp add: from_api_response_def bindE_def Let_def split: json.splits sum.splits if_splits)

lemma from_api_response_None_iff:
  "from_api_response B data fb = Inr None \<longleftrightarrow>
     \<not> (\<exists>s. dict_get data ''id'' = JStr s \<and> s \<noteq> [])"
  by (auto simp add: from_api_response_def bindE_def Let_def split: json.splits sum.splits)

lemma from_api_response_model_type:
  "from_api_response B data fb = Inr (Some m) \<Longrightarrow> model_type m = py_or (dict_get data ''type'') fb"
  by (auto simp add: from_api_response_def bindE_def Let_def split: json.splits sum.splits if_splits)




text \<open>The exceptions the normalizer can raise.\<close>

lemma float_of_int_error: "float_of_int i = Inl e \<Longrightarrow> e = OverflowError"
  by (auto simp: float_of_int_def Let_def split: if_splits)

lemma py_float_error: "py_float B v = Inl e \<Longrightarrow> e = TypeError \<or> e = ValueError \<or> e = OverflowError"
  by (cases v) (auto dest: float_of_int_error split: option.splits)

lemma py_int_error: "py_int B v = Inl e \<Longrightarrow> e = TypeError \<or> e = ValueError \<or> e = OverflowError"
  by (induction B v rule: py_int.induct) (auto split: option.splits)

lemma except_type_value_error:
  "except_type_value r dflt = Inl e \<Longrightarrow> r = Inl e \<and> e \<noteq> TypeError \<and> e \<noteq> ValueError"
  by (auto simp: except_type_value_def split: sum.splits exn.splits)

lemma guarded_float_error:
  assumes "except_type_value (bindE (py_float B val) (\<lambda>f. Inr (Some f))) None = Inl e"
  shows "e = OverflowError"
proof -
  from except_type_value_error[OF assms]
  have r: "bindE (py_float B val) (\<lambda>f. Inr (Some f)) = Inl e" and ne: "e \<noteq> TypeError" "e \<noteq> ValueError"
    by simp_all
  from r have "py_float B val = Inl e" by (simp add: bindE_def split: sum.splits)
  with py_float_error ne show ?thesis by blast
qed

lemma extract_price_error: "extract_price B d key = Inl e \<Longrightarrow> e = OverflowError"
  by (auto simp: extract_price_def simp del: py_float.simps split: json.splits
      dest: guarded_float_error)

lemma ModelPricing_from_dict_error: "ModelPricing_from_dict B v = Inl e \<Longrightarrow> e = OverflowError"
  by (auto simp: ModelPricing_from_dict_def bindE_def split: json.splits sum.splits dest: extract_price_error)

lemma default_temp_of_error: "default_temp_of B v = Inl e \<Longrightarrow> e = OverflowError"
  by (auto simp: default_temp_of_def split: json.splits dest: float_of_int_error)

lemma temperature_of_error: "temperature_of v = Inl e \<Longrightarrow> e = AttributeError"
  by (auto simp: temperature_of_def split: json.splits)

lemma from_api_response_error:
  assumes "from_api_response B data fb = Inl e"
  shows "e = AttributeError \<or> e = OverflowError"
proof -
  from assms obtain mid where "dict_get data ''id'' = JStr mid" "mid \<noteq> []"
    by (auto simp: from_api_response_def split: json.splits if_splits)
  with assms show ?thesis
    by (auto simp: from_api_response_def bindE_def Let_def split: sum.splits
        dest!: except_type_value_error
        dest: py_int_error temperature_of_error default_temp_of_error ModelPricing_from_dict_error)
qed

lemmas normalizer_defs =
  from_api_response_def model_spec_of_def dict_get_def dict_get_default_def py_or_def bindE_def
  except_type_value_def temperature_of_def default_temp_of_def ModelPricing_from_dict_def
  extract_price_def py_str_def ModelCapabilities_from_dict_def

text \<open>
  C2. Claim: for every input mapping and fallback partition, the normalizer never raises;
  coercion failures and missing or non-mapping sub-objects degrade to the defaults.
  The code raises: \<open>constraints\<close> is only defaulted when it is falsy, so a \<open>constraints\<close>
  that is a non-empty string has no \<open>get\<close> (AttributeError); and \<open>int\<close> of an infinite
  \<open>availableContextTokens\<close> raises OverflowError, which the \<open>except\<close> clause does not
  list. These two are the only exceptions it raises (\<open>from_api_response_error\<close>).
\<close>

theorem from_api_response_raises:
  "from_api_response B
     [(''id'', JStr ''m1''), (''model_spec'', JDict [(''constraints'', JStr ''x'')])]
     (JStr ''text'') = Inl AttributeError
   \<and> from_api_response B
     [(''id'', JStr ''m1''), (''model_spec'', JDict [(''availableContextTokens'', JFloat PInf)])]
     (JStr ''text'') = Inl OverflowError"
  by (simp add: normalizer_defs)

text \<open>
  C7. Claim: the normalizer returns absent exactly when the record lacks a non-empty
  string id, and otherwise returns an entry whose partition is the record's declared one
  when present and non-empty, else the fallback. The first half and the partition of
  every returned entry hold (\<open>from_api_response_None_iff\<close>,
  \<open>from_api_response_model_type\<close>), but a record with an id need not yield an
  entry: the record below declares the partition \<open>image\<close> and the call raises.
\<close>

theorem from_api_response_declared_type_raises:
  "from_api_response B
     [(''id'', JStr ''m1''), (''type'', JStr ''image''),
      (''model_spec'', JDict [(''constraints'', JList [JInt 1])])]
     (JStr ''text'') = Inl AttributeError"
  by (simp add: normalizer_defs)



section \<open>CacheManager: properties\<close>

lemma CacheManager_get_calls: "calls (snd (CacheManager_get c key w)) = calls w"
  by (simp add: CacheManager_get_def time_time_def Let_def split: path_state.splits sum.splits)

lemma CacheManager_get_stale_calls: "calls (snd (CacheManager_get_stale c key w)) = calls w"
  by (simp add: CacheManager_get_stale_def time_time_def Let_def split: path_state.splits sum.splits)

lemma CacheManager_set_calls: "calls (CacheManager_set c key data w) = calls w"
  by (simp add: CacheManager_set_def time_time_def Let_def)

text \<open>The two reads raise at an unreachable path, with the OSError of the test, and nowhere else.\<close>

lemma CacheManager_get_raises_iff:
  "(\<exists>e. fst (CacheManager_get c key w) = Inl e) \<longleftrightarrow> files w (cache_path c key) = Unreachable"
  by (auto simp add: CacheManager_get_def time_time_def Let_def split: path_state.splits sum.splits)

lemma CacheManager_get_stale_raises_iff:
  "(\<exists>e. fst (CacheManager_get_stale c key w) = Inl e) \<longleftrightarrow> files w (cache_path c key) = Unreachable"
  by (auto simp add: CacheManager_get_stale_def time_time_def Let_def
      split: path_state.splits sum.splits)

lemma CacheManager_get_error: "CacheManager_get c key w = (Inl e, w') \<Longrightarrow> e = OSError"
  by (auto simp add: CacheManager_get_def time_time_def Let_def
      split: path_state.splits sum.splits if_splits)

lemma CacheManager_get_stale_error: "CacheManager_get_stale c key w = (Inl e, w') \<Longrightarrow> e = OSError"
  by (auto simp add: CacheManager_get_stale_def time_time_def Let_def
      split: path_state.splits sum.splits if_splits)

text \<open>
  The aging contract, with the TTLs ordered as the specification has them (fresh \<open>\<le>\<close>
  stale) and the age computed at the call: a readable record \<open>D\<close> of age at most the
  fresh TTL gives \<open>get = (D, True)\<close>; of an age above the fresh TTL and at most the stale
  TTL, \<open>get = (D, False)\<close> and \<open>get_stale = D\<close>; beyond the stale TTL, or when there is no
  file or the file cannot be read (\<open>stat\<close> or \<open>json.load\<close> fails), \<open>get = (None, False)\<close>
  and \<open>get_stale = None\<close>.
\<close>

lemma cache_aging_contract:
  assumes ttl: "fresh_ttl c \<le> stale_ttl c"
  shows
    "(files w (cache_path c key) = Present (CacheFile (Some mtime) (Some D)) \<longrightarrow>
        (clock w (ticks w) - mtime \<le> of_int (fresh_ttl c) \<longrightarrow>
           fst (CacheManager_get c key w) = Inr (D, True))
      \<and> (of_int (fresh_ttl c) < clock w (ticks w) - mtime
           \<and> clock w (ticks w) - mtime \<le> of_int (stale_ttl c) \<longrightarrow>
           fst (CacheManager_get c key w) = Inr (D, False)
           \<and> fst (CacheManager_get_stale c key w) = Inr D)
      \<and> (of_int (stale_ttl c) < clock w (ticks w) - mtime \<longrightarrow>
           fst (CacheManager_get c key w) = Inr (JNull, False)
           \<and> fst (CacheManager_get_stale c key w) = Inr JNull))
   \<and> (files w (cache_path c key) = Absent
        \<or> (\<exists>f. files w (cache_path c key) = Present f \<and> (st_mtime f = None \<or> content f = None)) \<longrightarrow>
        fst (CacheManager_get c key w) = Inr (JNull, False)
        \<and> fst (CacheManager_get_stale c key w) = Inr JNull)"
proof -
  have le: "(of_int (fresh_ttl c) :: real) \<le> of_int (stale_ttl c)" using ttl by simp
  have present: "fst (CacheManager_get c key w) = Inr (D, True)"
    if "files w (cache_path c key) = Present (CacheFile (Some mtime) (Some D))"
       "clock w (ticks w) - mtime \<le> of_int (fresh_ttl c)"
    using that by (simp add: CacheManager_get_def path_stat_def json_load_def time_time_def)
  have stale: "fst (CacheManager_get c key w) = Inr (D, False) \<and> fst (CacheManager_get_stale c key w) = Inr D"
    if "files w (cache_path c key) = Present (CacheFile (Some mtime) (Some D))"
       "of_int (fresh_ttl c) < clock w (ticks w) - mtime"
       "clock w (ticks w) - mtime \<le> of_int (stale_ttl c)"
    using that by (simp add: CacheManager_get_def CacheManager_get_stale_def path_stat_def json_load_def time_time_def)
  have expired: "fst (CacheManager_get c key w) = Inr (JNull, False) \<and> fst (CacheManager_get_stale c key w) = Inr JNull"
    if "files w (cache_path c key) = Present (CacheFile (Some mtime) (Some D))"
       "of_int (stale_ttl c) < clock w (ticks w) - mtime"
    using that le by (simp add: CacheManager_get_def CacheManager_get_stale_def path_stat_def json_load_def time_time_def)
  have absent: "fst (CacheManager_get c key w) = Inr (JNull, False) \<and> fst (CacheManager_get_stale c key w) = Inr JNull"
    if "files w (cache_path c key) = Absent"
    using that by (simp add: CacheManager_get_def CacheManager_get_stale_def)
  have corrupt: "fst (CacheManager_get c key w) = Inr (JNull, False) \<and> fst (CacheManager_get_stale c key w) = Inr JNull"
    if "files w (cache_path c key) = Present f" "st_mtime f = None \<or> content f = None" for f
    using that by (auto simp add: CacheManager_get_def CacheManager_get_stale_def path_stat_def json_load_def time_time_def Let_def split: option.splits)
  show ?thesis
    using present stale expired absent corrupt by blast
qed

text \<open>
  C4. Claim: \<open>get\<close> and \<open>get_stale\<close> follow the aging contract and neither ever
  raises, an absent or unreadable record being a cache miss. The contract holds wherever
  the calls return (\<open>cache_aging_contract\<close>), but both calls raise: the test
  \<open>if not path.exists()\<close> stands before the \<open>try\<close> block, and \<open>exists\<close> raises the
  OSError of a \<open>stat\<close> that fails otherwise than by a missing file. Below the cache
  directory exists and the key has 251 characters, so that the file name has 256, more
  than the file system allows (the same happens in a directory that may not be
  searched).
\<close>

theorem cache_reads_raise_at_unreachable_path:
  "CacheManager_get default_cache long_key (unreachable_world default_cache long_key)
     = (Inl OSError, unreachable_world default_cache long_key)
   \<and> CacheManager_get_stale default_cache long_key (unreachable_world default_cache long_key)
     = (Inl OSError, unreachable_world default_cache long_key)
   \<and> length (long_key @ ''.json'') = 256"
  by (simp add: CacheManager_get_def CacheManager_get_stale_def unreachable_world_def long_key_def)

section \<open>retry_with_backoff: properties\<close>

lemma delay_after_next: "delay_after cfg (next_delay cfg d) i = delay_after cfg d (Suc i)"
  by (induction i) simp_all

lemma time_sleep_ok: "sleep_ok x \<Longrightarrow> time_sleep x w = (Inr (), w\<lparr>slept := slept w @ [x]\<rparr>)"
  by (auto simp: sleep_ok_def time_sleep_def split: pyfloat.splits)

lemma time_sleep_not_ok: "\<not> sleep_ok x \<Longrightarrow> \<exists>e. time_sleep x w = (Inl e, w)"
  by (auto simp: sleep_ok_def time_sleep_def split: pyfloat.splits)

lemma wait_for_nonzero_hinted:
  "py_min (wait_for e d) (max_delay cfg) = nonzero_hinted_wait cfg (retry_after_of (Inl e)) d"
proof (cases e)
  case (RetryableError h)
  then show ?thesis
    by (cases h) (simp_all add: nonzero_hinted_wait_def retry_after_of_def fl_truthy_def)
qed (simp_all add: nonzero_hinted_wait_def retry_after_of_def)

text \<open>One iteration of the loop around an operation given by its outcomes.\<close>

lemma retry_loop_scripted_Suc:
  "retry_loop cfg (scripted outs) (Suc k) attempt d lst w =
     (case outs (calls w) of
        Inr v \<Rightarrow> (Inr (Some v), w\<lparr>calls := Suc (calls w)\<rparr>)
      | Inl e \<Rightarrow>
          if retryable e then
            if attempt < retries cfg then
              (case time_sleep (py_min (wait_for e d) (max_delay cfg)) (w\<lparr>calls := Suc (calls w)\<rparr>) of
                 (Inl e', w2) \<Rightarrow> (Inl e', w2)
               | (Inr u, w2) \<Rightarrow>
                   retry_loop cfg (scripted outs) k (attempt + 1)
                     (py_min (fl_mul d (backoff cfg)) (max_delay cfg)) (Some e) w2)
            else retry_loop cfg (scripted outs) k (attempt + 1) d (Some e) (w\<lparr>calls := Suc (calls w)\<rparr>)
          else (Inl e, w\<lparr>calls := Suc (calls w)\<rparr>))"
  by (simp add: scripted_def)

lemma retry_loop_calls_mono:
  "calls w \<le> calls (snd (retry_loop cfg (scripted outs) k attempt d lst w))"
proof (induction k arbitrary: attempt d lst w)
  case 0
  then show ?case by (simp split: option.splits)
next
  case (Suc k)
  let ?w1 = "w\<lparr>calls := Suc (calls w)\<rparr>"
  have a: "calls w \<le> calls (snd (retry_loop cfg (scripted outs) k a' d' l' ?w1))" for a' d' l'
    using Suc.IH[where w = "?w1" and attempt = a' and d = d' and lst = l'] by simp
  have b: "calls w \<le> calls (snd (retry_loop cfg (scripted outs) k a' d' l' (?w1\<lparr>slept := s\<rparr>)))" for a' d' l' s
    using Suc.IH[where w = "?w1\<lparr>slept := s\<rparr>" and attempt = a' and d = d' and lst = l'] by simp
  show ?case
  proof (cases "outs (calls w)")
    case (Inr v)
    then show ?thesis by (simp add: retry_loop_scripted_Suc del: retry_loop.simps(2))
  next
    case (Inl e)
    let ?x = "py_min (wait_for e d) (max_delay cfg)"
    show ?thesis
    proof (cases "sleep_ok ?x")
      case True
      show ?thesis using Inl a b
        by (simp add: retry_loop_scripted_Suc time_sleep_ok[OF True] del: retry_loop.simps(2))
    next
      case False
      then obtain e' where "time_sleep ?x ?w1 = (Inl e', ?w1)" using time_sleep_not_ok by blast
      then show ?thesis using Inl a by (simp add: retry_loop_scripted_Suc del: retry_loop.simps(2))
    qed
  qed
qed

lemma retry_loop_calls_Suc:
  "calls w < calls (snd (retry_loop cfg (scripted outs) (Suc k) attempt d lst w))"
proof -
  let ?w1 = "w\<lparr>calls := Suc (calls w)\<rparr>"
  have a: "calls w < calls (snd (retry_loop cfg (scripted outs) k a' d' l' ?w1))" for a' d' l'
    using retry_loop_calls_mono[where w = "?w1" and cfg = cfg and outs = outs and k = k
        and attempt = a' and d = d' and lst = l'] by simp
  have b: "calls w < calls (snd (retry_loop cfg (scripted outs) k a' d' l' (?w1\<lparr>slept := s\<rparr>)))" for a' d' l' s
    using retry_loop_calls_mono[where w = "?w1\<lparr>slept := s\<rparr>" and cfg = cfg and outs = outs and k = k
        and attempt = a' and d = d' and lst = l'] by simp
  show ?thesis
  proof (cases "outs (calls w)")
    case (Inr v)
    then show ?thesis by (simp add: retry_loop_scripted_Suc del: retry_loop.simps(2))
  next
    case (Inl e)
    let ?x = "py_min (wait_for e d) (max_delay cfg)"
    show ?thesis
    proof (cases "sleep_ok ?x")
      case True
      show ?thesis using Inl a b
        by (simp add: retry_loop_scripted_Suc time_sleep_ok[OF True] del: retry_loop.simps(2))
    next
      case False
      then obtain e' where "time_sleep ?x ?w1 = (Inl e', ?w1)" using time_sleep_not_ok by blast
      then show ?thesis using Inl a by (simp add: retry_loop_scripted_Suc del: retry_loop.simps(2))
    qed
  qed
qed

lemma map_upt_shift: "f 0 # map (\<lambda>i. f (Suc i)) [0..<n] = map f [0..<Suc n]"
proof -
  have "map f [0..<Suc n] = f 0 # map f [Suc 0..<Suc n]"
    by (simp add: upt_conv_Cons del: upt_Suc)
  also have "map f [Suc 0..<Suc n] = map (\<lambda>i. f (Suc i)) [0..<n]"
    by (simp add: map_Suc_upt[symmetric] del: upt_Suc)
  finally show ?thesis by simp
qed

text \<open>
  The sleeps of the loop: one before every further invocation, of the lengths the delay
  schedule and the hints give.
\<close>

lemma retry_loop_slept:
  assumes "int k + attempt = retries cfg + 1"
  shows "slept (snd (retry_loop cfg (scripted outs) k attempt d lst w)) =
         slept w @ map (\<lambda>i. nonzero_hinted_wait cfg (retry_after_of (outs (calls w + i))) (delay_after cfg d i))
                     [0..<calls (snd (retry_loop cfg (scripted outs) k attempt d lst w)) - calls w - 1]"
  using assms
proof (induction k arbitrary: attempt d lst w)
  case 0
  then show ?case by (simp split: option.splits)
next
  case (Suc k)
  let ?w1 = "w\<lparr>calls := Suc (calls w)\<rparr>"
  show ?case
  proof (cases "outs (calls w)")
    case (Inr v)
    then show ?thesis by (simp add: retry_loop_scripted_Suc del: retry_loop.simps(2))
  next
    case (Inl e)
    show ?thesis
    proof (cases "retryable e")
      case False
      with Inl show ?thesis by (simp add: retry_loop_scripted_Suc del: retry_loop.simps(2))
    next
      case True
      show ?thesis
      proof (cases "attempt < retries cfg")
        case False
        with Suc.prems have "k = 0" by simp
        with Inl True False show ?thesis
          by (simp add: retry_loop_scripted_Suc del: retry_loop.simps(2))
      next
        case lt: True
        with Suc.prems obtain k' where k: "k = Suc k'" by (cases k) auto
        let ?x = "py_min (wait_for e d) (max_delay cfg)"
        show ?thesis
        proof (cases "sleep_ok ?x")
          case False
          then obtain e' where "time_sleep ?x ?w1 = (Inl e', ?w1)" using time_sleep_not_ok by blast
          with Inl True lt show ?thesis
            by (simp add: retry_loop_scripted_Suc del: retry_loop.simps(2))
        next
          case ok: True
          let ?w2 = "?w1\<lparr>slept := slept ?w1 @ [?x]\<rparr>"
          let ?res = "retry_loop cfg (scripted outs) k (attempt + 1) (next_delay cfg d) (Some e) ?w2"
          have step: "retry_loop cfg (scripted outs) (Suc k) attempt d lst w = ?res"
            using Inl True lt
            by (simp add: retry_loop_scripted_Suc time_sleep_ok[OF ok] next_delay_def
                del: retry_loop.simps(2))
          have inv: "int k + (attempt + 1) = retries cfg + 1" using Suc.prems by simp
          have ih: "slept (snd ?res) =
              slept ?w2 @ map (\<lambda>i. nonzero_hinted_wait cfg (retry_after_of (outs (calls ?w2 + i)))
                                 (delay_after cfg (next_delay cfg d) i))
                   [0..<calls (snd ?res) - calls ?w2 - 1]"
            by (rule Suc.IH[OF inv])
          have gt: "calls ?w2 < calls (snd ?res)" unfolding k by (rule retry_loop_calls_Suc)
          have c2: "calls ?w2 = Suc (calls w)" by simp
          from gt c2 obtain n where n: "calls (snd ?res) - calls ?w2 - 1 = n"
              "calls (snd ?res) - calls w - 1 = Suc n"
            by (cases "calls (snd ?res) - calls w - 1") auto
          let ?g = "\<lambda>i. nonzero_hinted_wait cfg (retry_after_of (outs (calls w + i))) (delay_after cfg d i)"
          have s2: "slept ?w2 = slept w @ [?g 0]"
            using Inl by (simp add: wait_for_nonzero_hinted[symmetric])
          have "slept (snd ?res) = slept ?w2 @ map (\<lambda>i. ?g (Suc i)) [0..<n]"
            using ih[unfolded n(1)] by (simp add: delay_after_next del: delay_after.simps)
          also have "\<dots> = slept w @ (?g 0 # map (\<lambda>i. ?g (Suc i)) [0..<n])"
            using s2 by simp
          also have "?g 0 # map (\<lambda>i. ?g (Suc i)) [0..<n] = map ?g [0..<Suc n]"
            by (rule map_upt_shift)
          finally show ?thesis
            unfolding step n(2) .
        qed
      qed
    qed
  qed
qed

text \<open>
  Exhaustion: when every invocation fails with a retryable exception and every wait is a
  length \<open>time.sleep\<close> accepts, all iterations run and the last failure is raised.
\<close>

lemma retry_loop_exhausted:
  assumes "int k + attempt = retries cfg + 1"
    and "\<forall>i<k. \<exists>e. outs (calls w + i) = Inl e \<and> retryable e"
    and "\<forall>i<k - 1. sleep_ok (nonzero_hinted_wait cfg (retry_after_of (outs (calls w + i))) (delay_after cfg d i))"
  shows "calls (snd (retry_loop cfg (scripted outs) k attempt d lst w)) = calls w + k
       \<and> (0 < k \<longrightarrow> fst (retry_loop cfg (scripted outs) k attempt d lst w)
                      = (case outs (calls w + k - 1) of Inl e \<Rightarrow> Inl e | Inr v \<Rightarrow> Inr (Some v)))"
  using assms
proof (induction k arbitrary: attempt d lst w)
  case 0
  then show ?case by (simp split: option.splits)
next
  case (Suc k)
  let ?w1 = "w\<lparr>calls := Suc (calls w)\<rparr>"
  have "0 < Suc k" by simp
  with Suc.prems(2) have "\<exists>e. outs (calls w + 0) = Inl e \<and> retryable e" by blast
  then obtain e where e: "outs (calls w) = Inl e" "retryable e" by auto
  show ?case
  proof (cases "attempt < retries cfg")
    case False
    with Suc.prems(1) have "k = 0" by simp
    with e False show ?thesis
      by (simp add: retry_loop_scripted_Suc del: retry_loop.simps(2))
  next
    case lt: True
    with Suc.prems(1) obtain k' where k: "k = Suc k'" by (cases k) auto
    let ?x = "py_min (wait_for e d) (max_delay cfg)"
    have "0 < Suc k - 1" using k by simp
    with Suc.prems(3)
    have "sleep_ok (nonzero_hinted_wait cfg (retry_after_of (outs (calls w + 0))) (delay_after cfg d 0))"
      by blast
    then have ok: "sleep_ok ?x"
      using e by (simp add: wait_for_nonzero_hinted[symmetric])
    let ?w2 = "?w1\<lparr>slept := slept ?w1 @ [?x]\<rparr>"
    let ?res = "retry_loop cfg (scripted outs) k (attempt + 1) (next_delay cfg d) (Some e) ?w2"
    have step: "retry_loop cfg (scripted outs) (Suc k) attempt d lst w = ?res"
      using e lt
      by (simp add: retry_loop_scripted_Suc time_sleep_ok[OF ok] next_delay_def del: retry_loop.simps(2))
    have inv: "int k + (attempt + 1) = retries cfg + 1" using Suc.prems(1) by simp
    have f: "\<forall>i<k. \<exists>e. outs (calls ?w2 + i) = Inl e \<and> retryable e"
      using Suc.prems(2) by auto
    have s: "\<forall>i<k - 1. sleep_ok (nonzero_hinted_wait cfg (retry_after_of (outs (calls ?w2 + i)))
                (delay_after cfg (next_delay cfg d) i))"
    proof (intro allI impI)
      fix i assume "i < k - 1"
      then have "Suc i < Suc k - 1" by simp
      with Suc.prems(3) have "sleep_ok (nonzero_hinted_wait cfg (retry_after_of (outs (calls w + Suc i)))
                (delay_after cfg d (Suc i)))" by blast
      then show "sleep_ok (nonzero_hinted_wait cfg (retry_after_of (outs (calls ?w2 + i)))
                (delay_after cfg (next_delay cfg d) i))"
        by (simp add: delay_after_next del: delay_after.simps)
    qed
    have ih: "calls (snd ?res) = calls ?w2 + k
       \<and> (0 < k \<longrightarrow> fst ?res = (case outs (calls ?w2 + k - 1) of Inl e \<Rightarrow> Inl e | Inr v \<Rightarrow> Inr (Some v)))"
      by (rule Suc.IH[OF inv f s])
    show ?thesis unfolding step using ih k by simp
  qed
qed

lemma retry_exhaustion:
  assumes "0 \<le> retries cfg"
    and "\<forall>i\<le>nat (retries cfg). \<exists>e. outs (calls w + i) = Inl e \<and> retryable e"
    and "\<forall>i<nat (retries cfg). sleep_ok (nonzero_hinted_wait cfg (retry_after_of (outs (calls w + i))) (delay_at cfg i))"
  shows "calls (snd (retry_with_backoff cfg (scripted outs) w)) = calls w + nat (retries cfg) + 1
       \<and> (\<exists>e. outs (calls w + nat (retries cfg)) = Inl e
              \<and> fst (retry_with_backoff cfg (scripted outs) w) = Inl e)"
proof -
  let ?k = "nat (retries cfg + 1)"
  have k: "?k = Suc (nat (retries cfg))" using assms(1) by (simp add: nat_add_distrib)
  have inv: "int ?k + 0 = retries cfg + 1" using assms(1) by simp
  have f: "\<forall>i<?k. \<exists>e. outs (calls w + i) = Inl e \<and> retryable e"
    using assms(2) k by (simp add: less_Suc_eq_le)
  have s: "\<forall>i<?k - 1. sleep_ok (nonzero_hinted_wait cfg (retry_after_of (outs (calls w + i))) (delay_after cfg (delay cfg) i))"
    using assms(3) k by (simp add: delay_at_def)
  from retry_loop_exhausted[OF inv f s, of None]
  have r: "calls (snd (retry_with_backoff cfg (scripted outs) w)) = calls w + ?k"
    "fst (retry_with_backoff cfg (scripted outs) w)
       = (case outs (calls w + ?k - 1) of Inl e \<Rightarrow> Inl e | Inr v \<Rightarrow> Inr (Some v))"
    using k by (simp_all add: retry_with_backoff_def)
  from assms(2) obtain e where e: "outs (calls w + nat (retries cfg)) = Inl e" by blast
  show ?thesis using r e k by simp
qed

lemma nonretryable_propagates:
  assumes "0 \<le> retries cfg" and "outs (calls w) = Inl e" and "\<not> retryable e"
  shows "retry_with_backoff cfg (scripted outs) w = (Inl e, w\<lparr>calls := Suc (calls w)\<rparr>)"
proof -
  have k: "nat (retries cfg + 1) = Suc (nat (retries cfg))" using assms(1) by (simp add: nat_add_distrib)
  show ?thesis
    unfolding retry_with_backoff_def k using assms(2,3)
    by (simp add: retry_loop_scripted_Suc del: retry_loop.simps(2))
qed

lemmas retry_eval =
  retry_with_backoff_def default_retry_def scripted_def time_sleep_def py_min_def fl_truthy_def
  eval_nat_numeral

text \<open>
  C5. Claim: an operation that fails with a retryable failure on every attempt is invoked
  exactly \<open>N + 1\<close> times under \<open>retries = N\<close> and the last failure is raised; a
  failure of another kind propagates at once. The second half holds
  (\<open>nonretryable_propagates\<close>), and so does the first when every wait is a length
  \<open>time.sleep\<close> accepts (\<open>retry_exhaustion\<close>). But the wait is not checked: with the
  hint \<open>-1\<close> (a 429 response with \<open>Retry-After: -1\<close>) on every attempt and the default
  \<open>retries = 3\<close>, \<open>time.sleep(-1.0)\<close> raises ValueError outside the \<open>try\<close>: the
  operation is invoked once and what is raised is not its failure.
\<close>

theorem negative_hint_stops_retrying:
  "retry_with_backoff default_retry (scripted (always_limited (Fin (- 1)))) start_world
     = (Inl ValueError, start_world\<lparr>calls := 1\<rparr>)"
  by (simp add: retry_eval always_limited_def start_world_def)

text \<open>
  C6 as stated fails on a hint of zero: the failure carries the hint \<open>0.0\<close>, so the stated
  wait is \<open>min(0.0, 60.0) = 0.0\<close>, but \<open>e.retry_after if e.retry_after else current_delay\<close>
  takes a zero hint for no hint and the wrapper sleeps the current delay, \<open>1.0\<close>.
\<close>

theorem zero_hint_waits_current_delay:
  "slept (snd (retry_with_backoff default_retry (scripted (limited_once (Fin 0))) start_world)) = [Fin 1]
   \<and> hinted_wait default_retry (retry_after_of (limited_once (Fin 0) 0)) (delay default_retry) = Fin 0
   \<and> slept (snd (retry_with_backoff default_retry (scripted (limited_once (Fin 0))) start_world))
       \<noteq> [hinted_wait default_retry (retry_after_of (limited_once (Fin 0) 0)) (delay default_retry)]"
  by (simp add: retry_eval start_world_def hinted_wait_def retry_after_of_def)

lemma fetch_body_scripted: "fetch_body B net t = scripted (\<lambda>k. response_outcome B (net k t))"
  by (rule ext) (simp add: fetch_body_def scripted_def)

text \<open>
  C6, with a zero hint counted as no hint. In a run of the wrapper every invocation but
  the last is followed by one sleep that returned; the \<open>i\<close>-th of them lasts
  \<open>min(w, M)\<close>, where \<open>w\<close> is the retry-after hint of the \<open>i\<close>-th failure when it
  carries one that is not zero and the current delay otherwise; the current delay starts
  at \<open>D\<close> and after each wait becomes \<open>min(current_delay * B, M)\<close>. \<open>_fetch\<close> is the
  wrapper around an operation whose 429 outcome carries as its hint the \<open>Retry-After\<close>
  header read as a float (no hint when it does not parse).
\<close>

theorem retry_waits:
  "slept (snd (retry_with_backoff cfg (scripted outs) w)) =
     slept w @ map (\<lambda>i. nonzero_hinted_wait cfg (retry_after_of (outs (calls w + i))) (delay_at cfg i))
                 [0..<calls (snd (retry_with_backoff cfg (scripted outs) w)) - calls w - 1]
   \<and> delay_at cfg 0 = delay cfg
   \<and> delay_at cfg (Suc i) = py_min (fl_mul (delay_at cfg i) (backoff cfg)) (max_delay cfg)
   \<and> fetch B net t = retry_with_backoff default_retry (scripted (\<lambda>k. response_outcome B (net k t)))
   \<and> retry_after_of (response_outcome B (Response 429 (Some h) b)) = float_of_str B h"
proof -
  have sl: "slept (snd (retry_with_backoff cfg (scripted outs) w)) =
     slept w @ map (\<lambda>i. nonzero_hinted_wait cfg (retry_after_of (outs (calls w + i))) (delay_at cfg i))
                 [0..<calls (snd (retry_with_backoff cfg (scripted outs) w)) - calls w - 1]"
  proof (cases "0 \<le> retries cfg + 1")
    case True
    then have inv: "int (nat (retries cfg + 1)) + 0 = retries cfg + 1" by simp
    show ?thesis
      unfolding retry_with_backoff_def delay_at_def by (rule retry_loop_slept[OF inv])
  next
    case False
    then have "nat (retries cfg + 1) = 0" by simp
    then show ?thesis by (simp add: retry_with_backoff_def)
  qed
  have f: "fetch B net t = retry_with_backoff default_retry (scripted (\<lambda>k. response_outcome B (net k t)))"
    by (rule ext) (simp add: fetch_def fetch_body_scripted)
  show ?thesis
    using sl f by (simp add: delay_at_def next_delay_def response_outcome_def retry_after_of_def)
qed

text \<open>
  Rate limited with the hint of 5 seconds on every attempt, under the default
  configuration: four invocations and three sleeps of 5 seconds; with no hint the third
  wait is the delay \<open>4.0\<close>.
\<close>

theorem retry_waits_witness:
  "calls (snd (retry_with_backoff default_retry (scripted (always_limited (Fin 5))) start_world)) = 4
   \<and> slept (snd (retry_with_backoff default_retry (scripted (always_limited (Fin 5))) start_world))
       = [Fin 5, Fin 5, Fin 5]
   \<and> delay_at default_retry 2 = Fin 4"
proof -
  let ?run = "retry_with_backoff default_retry (scripted (always_limited (Fin 5))) start_world"
  have c: "calls (snd ?run) = 4"
    by (simp add: retry_eval always_limited_def start_world_def)
  have "slept (snd ?run) =
     slept start_world @ map (\<lambda>i. nonzero_hinted_wait default_retry
        (retry_after_of (always_limited (Fin 5) (calls start_world + i))) (delay_at default_retry i))
                 [0..<calls (snd ?run) - calls start_world - 1]"
    using retry_waits[of default_retry "always_limited (Fin 5)" start_world] by blast
  then have s: "slept (snd ?run) = [Fin 5, Fin 5, Fin 5]"
    unfolding c
    by (simp add: start_world_def always_limited_def retry_after_of_def nonzero_hinted_wait_def
        default_retry_def py_min_def eval_nat_numeral)
  have d: "delay_at default_retry 2 = Fin 4"
    by (simp add: delay_at_def next_delay_def default_retry_def py_min_def eval_nat_numeral)
  show ?thesis using c s d by simp
qed

section \<open>VeniceClient: properties\<close>

lemma dict_get_delete_other: "k \<noteq> k' \<Longrightarrow> dict_get (AList.delete k d) k' = dict_get d k'"
  by (simp add: dict_get_def delete_conv')

lemma parse_one_Some: "parse_one B dt raw = Inr (Some m) \<Longrightarrow> record_id raw = Some (model_id m)"
  by (cases raw) (auto dest!: from_api_response_id simp: dict_get_delete_other)

lemma parse_one_None: "parse_one B dt raw = Inr None \<Longrightarrow> record_id raw = None"
  by (cases raw) (auto simp: from_api_response_None_iff dict_get_delete_other split: json.splits)

lemma parse_loop_ids: "parse_loop B dt raws = Inr ms \<Longrightarrow> map model_id ms = valid_ids raws"
proof (induction raws arbitrary: ms)
  case Nil
  then show ?case by (simp add: valid_ids_def)
next
  case (Cons raw rest)
  from Cons.prems obtain model models where
    one: "parse_one B dt raw = Inr model" and rest: "parse_loop B dt rest = Inr models"
    and ms: "ms = (case model of Some m \<Rightarrow> m # models | None \<Rightarrow> models)"
    by (auto simp: bindE_def split: sum.splits)
  have ih: "map model_id models = valid_ids rest" using Cons.IH rest by simp
  show ?case
  proof (cases model)
    case None
    with one have "record_id raw = None" by (simp add: parse_one_None)
    with None ms ih show ?thesis by (simp add: valid_ids_def)
  next
    case (Some m)
    with one have "record_id raw = Some (model_id m)" by (simp add: parse_one_Some)
    with Some ms ih show ?thesis by (simp add: valid_ids_def)
  qed
qed

lemma map_insort_key: "map f (insort_key f x xs) = insort (f x) (map f xs)"
  by (induction xs) simp_all

lemma map_sort_key: "map f (sort_key f xs) = sort (map f xs)"
  by (induction xs) (simp_all add: map_insort_key)

lemma parse_models_ids:
  assumes "parse_models B (JList raws) mt = Inr ms"
  shows "map model_id ms = sort (valid_ids raws)"
proof -
  from assms obtain models where
    loop: "parse_loop B (if mt \<noteq> ALL_TYPES then type_value mt else ''text'') raws = Inr models"
    and ms: "ms = sort_key model_id models"
    by (auto simp: parse_models_def bindE_def split: sum.splits)
  from loop have "map model_id models = valid_ids raws" by (rule parse_loop_ids)
  with ms show ?thesis by (simp add: map_sort_key)
qed

lemma parse_models_sort_key:
  assumes "parse_models B raw mt = Inr ms"
  shows "\<exists>raws models. py_iter raw = Inr raws
           \<and> parse_loop B (if mt \<noteq> ALL_TYPES then type_value mt else ''text'') raws = Inr models
           \<and> ms = sort_key model_id models"
  using assms by (auto simp: parse_models_def bindE_def split: sum.splits)

lemma live_fetch_parse:
  "live_fetch B net cache mt w = (Inr ms, w') \<Longrightarrow> \<exists>raw. parse_models B raw mt = Inr ms"
  unfolding live_fetch_def Let_def
  by (auto split: prod.splits option.splits if_splits sum.splits)

lemma fetch_models_parse:
  "fetch_models B net cache mt w = (Inr ms, w') \<Longrightarrow> \<exists>raw. parse_models B raw mt = Inr ms"
  unfolding fetch_models_def Let_def
  by (auto split: prod.splits option.splits if_splits sum.splits dest: live_fetch_parse)

text \<open>The live fetch makes at least one request.\<close>

lemma fetch_calls: "calls w < calls (snd (fetch B net t w))"
proof -
  have k: "nat (retries default_retry + 1) = Suc 3" by (simp add: default_retry_def)
  show ?thesis
    unfolding fetch_def retry_with_backoff_def k fetch_body_scripted
    by (rule retry_loop_calls_Suc)
qed

lemma fetch_models_for_type_world: "snd (fetch_models_for_type B net t w) = snd (fetch B net t w)"
  by (simp add: fetch_models_for_type_def split: prod.splits sum.splits option.splits json.splits)

lemma fetch_models_for_type_calls: "calls w < calls (snd (fetch_models_for_type B net t w))"
  by (simp add: fetch_models_for_type_world fetch_calls)

lemma gather_all_calls: "calls w \<le> calls (snd (gather_all B net mts acc w))"
proof (induction mts arbitrary: acc w)
  case Nil
  then show ?case by simp
next
  case (Cons mt mts)
  obtain fetched w1 where f: "fetch_models_for_type B net (type_value mt) w = (fetched, w1)"
    by (cases "fetch_models_for_type B net (type_value mt) w")
  have lt: "calls w < calls w1"
    using fetch_models_for_type_calls[of w B net "type_value mt"] f by simp
  obtain fetched' err where a: "annotate (type_value mt) fetched = (fetched', err)"
    by (cases "annotate (type_value mt) fetched")
  show ?case
  proof (cases err)
    case None
    have "calls w1 \<le> calls (snd (gather_all B net mts (acc @ fetched') w1))" by (rule Cons.IH)
    with lt f a None show ?thesis by simp
  next
    case (Some e)
    with lt f a show ?thesis by simp
  qed
qed

lemma gather_calls: "calls w < calls (snd (gather B net mt w))"
proof (cases "mt = ALL_TYPES")
  case True
  obtain fetched w1 where f: "fetch_models_for_type B net ''text'' w = (fetched, w1)"
    by (cases "fetch_models_for_type B net ''text'' w")
  have lt: "calls w < calls w1"
    using fetch_models_for_type_calls[of w B net "''text''"] f by simp
  obtain fetched' err where a: "annotate ''text'' fetched = (fetched', err)"
    by (cases "annotate ''text'' fetched")
  show ?thesis
  proof (cases err)
    case None
    have "calls w1 \<le> calls (snd (gather_all B net [IMAGE, CODE] ([] @ fetched') w1))"
      by (rule gather_all_calls)
    with lt f a None True show ?thesis by (simp add: gather_def)
  next
    case (Some e)
    with lt f a True show ?thesis by (simp add: gather_def)
  qed
next
  case False
  obtain fetched w1 where f: "fetch_models_for_type B net (type_value mt) w = (fetched, w1)"
    by (cases "fetch_models_for_type B net (type_value mt) w")
  have lt: "calls w < calls w1"
    using fetch_models_for_type_calls[of w B net "type_value mt"] f by simp
  with f False show ?thesis by (simp add: gather_def)
qed

lemma live_fetch_calls: "calls w < calls (snd (live_fetch B net cache mt w))"
proof -
  obtain raw_models fetch_error w1 where g: "gather B net mt w = ((raw_models, fetch_error), w1)"
    by (cases "gather B net mt w") auto
  have lt: "calls w < calls w1" using gather_calls[of w B net mt] g by simp
  show ?thesis
  proof (cases cache)
    case None
    with g lt show ?thesis by (simp add: live_fetch_def)
  next
    case (Some c)
    let ?key = "''models_'' @ type_value mt"
    let ?w2 = "if raw_models \<noteq> [] \<and> fetch_error = None
               then CacheManager_set c ?key (JList raw_models) w1 else w1"
    have c2: "calls ?w2 = calls w1" by (simp add: CacheManager_set_calls)
    obtain r w3 where st: "CacheManager_get_stale c ?key ?w2 = (r, w3)"
      by (cases "CacheManager_get_stale c ?key ?w2")
    have c3: "calls w3 = calls w1"
      using CacheManager_get_stale_calls[of c ?key ?w2] st c2 by simp
    show ?thesis
      using g Some lt c2 c3 st
      by (auto simp add: live_fetch_def Let_def split: sum.splits option.splits)
  qed
qed

text \<open>
  No exception \<open>fetch_models\<close> raises is one of those the requests fail with: these
  end in \<open>_fetch_models_for_type\<close>.
\<close>

lemma parse_one_error: "parse_one B dt raw = Inl e \<Longrightarrow> \<not> retryable e"
  by (cases raw) (auto dest: from_api_response_error)

lemma parse_loop_error: "parse_loop B dt raws = Inl e \<Longrightarrow> \<not> retryable e"
proof (induction raws)
  case Nil
  then show ?case by simp
next
  case (Cons raw rest)
  then show ?case
    by (auto simp: bindE_def split: sum.splits dest: parse_one_error)
qed

lemma py_iter_error: "py_iter v = Inl e \<Longrightarrow> e = TypeError"
  by (cases v) auto

lemma parse_models_error: "parse_models B raw mt = Inl e \<Longrightarrow> \<not> retryable e"
  by (auto simp: parse_models_def bindE_def Let_def split: sum.splits if_splits
      dest: parse_loop_error py_iter_error)

lemma annotate1_error: "annotate1 t m = Inl e \<Longrightarrow> e = TypeError"
  by (cases m) (auto split: if_splits)

lemma annotate_error: "annotate t ms = (ms', Some e) \<Longrightarrow> e = TypeError"
proof (induction ms arbitrary: ms')
  case Nil
  then show ?case by simp
next
  case (Cons m ms)
  then show ?case
    by (auto split: sum.splits prod.splits dest: annotate1_error)
qed

lemma gather_all_error: "gather_all B net mts acc w = ((raws, Some e), w') \<Longrightarrow> e = TypeError"
proof (induction mts arbitrary: acc w)
  case Nil
  then show ?case by simp
next
  case (Cons mt mts)
  then show ?case
    by (auto split: prod.splits option.splits dest: annotate_error)
qed

lemma gather_error: "gather B net mt w = ((raws, Some e), w') \<Longrightarrow> e = TypeError"
proof (cases "mt = ALL_TYPES")
  case True
  assume "gather B net mt w = ((raws, Some e), w')"
  with True have "gather_all B net [TEXT, IMAGE, CODE] [] w = ((raws, Some e), w')"
    by (simp add: gather_def)
  then show ?thesis by (rule gather_all_error)
next
  case False
  assume "gather B net mt w = ((raws, Some e), w')"
  with False show ?thesis
    by (auto simp: gather_def split: prod.splits dest: annotate_error)
qed

lemma live_fetch_error: "live_fetch B net cache mt w = (Inl e, w') \<Longrightarrow> \<not> retryable e"
  unfolding live_fetch_def Let_def
  by (auto split: prod.splits option.splits if_splits sum.splits
      dest: parse_models_error gather_error CacheManager_get_stale_error)

lemma fetch_models_error: "fetch_models B net cache mt w = (Inl e, w') \<Longrightarrow> \<not> retryable e"
  unfolding fetch_models_def Let_def
  by (auto split: prod.splits option.splits if_splits sum.splits
      dest: parse_models_error live_fetch_error CacheManager_get_error)

lemmas client_eval =
  fetch_models_def live_fetch_def gather_def fetch_models_for_type_def fetch_def fetch_body_def
  response_outcome_def parse_models_def CacheManager_get_def CacheManager_get_stale_def
  CacheManager_set_def time_time_def path_stat_def json_load_def cache_path_def
  default_cache_def start_world_def net_offline_def net_ok_def catalog_def plain_model_def
  retry_with_backoff_def default_retry_def time_sleep_def py_min_def fl_truthy_def
  eval_nat_numeral

text \<open>
  C1. Claim: when the live fetch fails entirely and no usable stale record exists,
  \<open>fetch_models\<close> raises the fetch failure, distinct from a successful fetch of zero
  records. The code returns the empty list in both cases: \<open>_fetch_models_for_type\<close>
  catches every exception of \<open>_fetch\<close> and returns \<open>[]\<close>, so \<open>fetch_error\<close> is never set
  by a failed request and \<open>raise fetch_error\<close> is not reached for one
  (\<open>fetch_models_error\<close>). Below, every request fails
  in the transport (4 attempts for one partition, 12 for all), with an empty cache
  directory and without a cache; the last line is the successful fetch of an empty
  catalog.
\<close>

theorem total_failure_returns_empty_list:
  "fetch_models B net_offline (Some default_cache) TEXT start_world
     = (Inr [], start_world\<lparr>calls := 4, slept := [Fin 1, Fin 2, Fin 4]\<rparr>)
   \<and> fst (fetch_models B net_offline (Some default_cache) ALL_TYPES start_world) = Inr []
   \<and> calls (snd (fetch_models B net_offline (Some default_cache) ALL_TYPES start_world)) = 12
   \<and> fst (fetch_models B net_offline None TEXT start_world) = Inr []
   \<and> fst (fetch_models B (net_ok (catalog [])) (Some default_cache) TEXT start_world) = Inr []"
  by (simp add: client_eval bindE_def dict_get_default_def)

text \<open>Scenarios of the catalog client, evaluated.\<close>

lemma fetch_same_id_everywhere:
  "fetch_models B (net_ok (catalog [JDict [(''id'', JStr ''m1'')]])) None ALL_TYPES start_world
     = (Inr [plain_model ''m1'' ''text'', plain_model ''m1'' ''image'', plain_model ''m1'' ''code''],
        start_world\<lparr>calls := 3\<rparr>)"
  by (simp add: client_eval normalizer_defs)

lemma fetch_two_unsorted:
  "fetch_models B (net_ok (catalog [JDict [(''id'', JStr ''b'')], JDict [(''name'', JStr ''x'')],
                                     JDict [(''id'', JStr ''a'')]])) None TEXT start_world
     = (Inr [plain_model ''a'' ''text'', plain_model ''b'' ''text''], start_world\<lparr>calls := 1\<rparr>)"
  by (simp add: client_eval normalizer_defs)

text \<open>
  C3 as stated fails: the client removes no duplicates. When all partitions are requested
  and each of the three requests returns the record with id \<open>m1\<close>, the result holds three
  entries with that id.
\<close>

theorem same_id_under_every_partition:
  "fetch_models no_numeric_strings (net_ok (catalog [JDict [(''id'', JStr ''m1'')]])) None ALL_TYPES
     start_world
     = (Inr [plain_model ''m1'' ''text'', plain_model ''m1'' ''image'', plain_model ''m1'' ''code''],
        start_world\<lparr>calls := 3\<rparr>)
   \<and> map model_id
        [plain_model ''m1'' ''text'', plain_model ''m1'' ''image'', plain_model ''m1'' ''code'']
       = [''m1'', ''m1'', ''m1'']
   \<and> \<not> distinct (map model_id
        [plain_model ''m1'' ''text'', plain_model ''m1'' ''image'', plain_model ''m1'' ''code''])"
  by (simp add: fetch_same_id_everywhere) (simp add: plain_model_def)

text \<open>\<open>fetch_models\<close> is \<open>_parse_models\<close> on the resolved raw records.\<close>

lemma live_fetch_resolved:
  "live_fetch B net cache mt w =
     (case live_raw_models B net cache mt w of
        (Inl e, w') \<Rightarrow> (Inl e, w')
      | (Inr raw, w') \<Rightarrow> (parse_models B raw mt, w'))"
  unfolding live_fetch_def live_raw_models_def Let_def
  by (simp split: prod.splits option.splits sum.splits)

lemma fetch_models_resolved:
  "fetch_models B net cache mt w =
     (case resolved_raw_models B net cache mt w of
        (Inl e, w') \<Rightarrow> (Inl e, w')
      | (Inr raw, w') \<Rightarrow> (parse_models B raw mt, w'))"
  unfolding fetch_models_def resolved_raw_models_def Let_def
  by (simp add: live_fetch_resolved split: prod.splits option.splits sum.splits)

text \<open>A truthy value that \<open>_parse_models\<close> accepts is a list.\<close>

lemma parse_loop_JStr: "raws \<noteq> [] \<Longrightarrow> \<forall>r\<in>set raws. \<exists>s. r = JStr s \<Longrightarrow> \<exists>e. parse_loop B dt raws = Inl e"
  by (cases raws) (auto simp: bindE_def)

lemma parse_models_truthy_list:
  assumes "parse_models B raw mt = Inr ms" and "truthy raw"
  shows "\<exists>raws. raw = JList raws"
proof (cases raw)
  case (JDict d)
  with assms(2) have ne: "map (\<lambda>kv. JStr (fst kv)) d \<noteq> []" by simp
  have "\<forall>r\<in>set (map (\<lambda>kv. JStr (fst kv)) d). \<exists>s. r = JStr s" by auto
  from parse_loop_JStr[OF ne this, of B "if mt \<noteq> ALL_TYPES then type_value mt else ''text''"]
    assms(1) JDict show ?thesis
    by (auto simp: parse_models_def bindE_def Let_def split: sum.splits)
next
  case (JStr s)
  with assms(2) have ne: "map (\<lambda>c. JStr [c]) s \<noteq> []" by simp
  have "\<forall>r\<in>set (map (\<lambda>c. JStr [c]) s). \<exists>s. r = JStr s" by auto
  from parse_loop_JStr[OF ne this, of B "if mt \<noteq> ALL_TYPES then type_value mt else ''text''"]
    assms(1) JStr show ?thesis
    by (auto simp: parse_models_def bindE_def Let_def split: sum.splits)
qed (use assms in \<open>auto simp: parse_models_def bindE_def Let_def\<close>)

lemma live_raw_models_list_or_truthy:
  "live_raw_models B net cache mt w = (Inr raw, w') \<Longrightarrow> truthy raw \<or> (\<exists>raws. raw = JList raws)"
  unfolding live_raw_models_def Let_def
  by (auto split: prod.splits option.splits sum.splits if_splits)

lemma resolved_raw_models_list_or_truthy:
  "resolved_raw_models B net cache mt w = (Inr raw, w') \<Longrightarrow> truthy raw \<or> (\<exists>raws. raw = JList raws)"
  unfolding resolved_raw_models_def Let_def
  by (auto split: prod.splits option.splits sum.splits if_splits dest: live_raw_models_list_or_truthy)

lemma fetch_models_resolved_list:
  assumes "fetch_models B net cache mt w = (Inr ms, w')"
  shows "\<exists>raws. resolved_raw_models B net cache mt w = (Inr (JList raws), w')
            \<and> parse_models B (JList raws) mt = Inr ms"
proof -
  obtain r w1 where rr: "resolved_raw_models B net cache mt w = (r, w1)"
    by (cases "resolved_raw_models B net cache mt w")
  with assms obtain raw where raw: "r = Inr raw" "w1 = w'" "parse_models B raw mt = Inr ms"
    by (auto simp: fetch_models_resolved split: sum.splits)
  from rr raw(1) have "truthy raw \<or> (\<exists>raws. raw = JList raws)"
    by (auto dest: resolved_raw_models_list_or_truthy)
  with raw(3) obtain raws where "raw = JList raws"
    using parse_models_truthy_list by blast
  with rr raw show ?thesis by simp
qed

text \<open>The annotation of the fetched records leaves their ids as they are.\<close>

lemma dict_get_update_other: "k \<noteq> k' \<Longrightarrow> dict_get (AList.update k v d) k' = dict_get d k'"
  by (simp add: dict_get_def update_conv')

lemma record_id_annotate1: "annotate1 t m = Inr m' \<Longrightarrow> record_id m' = record_id m"
  by (cases m) (auto simp: dict_get_update_other split: if_splits)

lemma valid_ids_Cons: "valid_ids (m # ms) = (case record_id m of None \<Rightarrow> valid_ids ms | Some i \<Rightarrow> i # valid_ids ms)"
  by (simp add: valid_ids_def split: option.splits)

lemma valid_ids_append: "valid_ids (xs @ ys) = valid_ids xs @ valid_ids ys"
  by (simp add: valid_ids_def List.map_filter_def)

lemma valid_ids_annotate: "valid_ids (fst (annotate t ms)) = valid_ids ms"
proof (induction ms)
  case Nil
  then show ?case by simp
next
  case (Cons m ms)
  show ?case
  proof (cases "annotate1 t m")
    case (Inl e)
    then show ?thesis by simp
  next
    case (Inr m')
    obtain ms' err where a: "annotate t ms = (ms', err)" by (cases "annotate t ms")
    with Cons have "valid_ids ms' = valid_ids ms" by simp
    with Inr a record_id_annotate1[OF Inr] show ?thesis
      by (simp add: valid_ids_Cons split: option.splits)
  qed
qed

lemma gather_all_partitions:
  assumes "fetch_models_for_type B net ''text'' w = (f1, w1)"
    and "fetch_models_for_type B net ''image'' w1 = (f2, w2)"
    and "fetch_models_for_type B net ''code'' w2 = (f3, w3)"
    and "snd (annotate ''text'' f1) = None" "snd (annotate ''image'' f2) = None"
      "snd (annotate ''code'' f3) = None"
  shows "gather B net ALL_TYPES w
     = ((fst (annotate ''text'' f1) @ fst (annotate ''image'' f2) @ fst (annotate ''code'' f3), None), w3)"
proof -
  obtain a1 a2 a3 where a:
    "annotate ''text'' f1 = (a1, None)" "annotate ''image'' f2 = (a2, None)"
    "annotate ''code'' f3 = (a3, None)"
    using assms(4-6) by (metis prod.collapse)
  show ?thesis
    using assms(1-3) a by (simp add: gather_def)
qed

lemma resolved_uncached: "resolved_raw_models B net None mt w
   = (Inr (JList (fst (fst (gather B net mt w)))), snd (gather B net mt w))"
  by (simp add: resolved_raw_models_def live_raw_models_def split: prod.splits)

lemma fetch_all_two_unsorted:
  "fetch_models B (net_ok (catalog [JDict [(''id'', JStr ''b'')], JDict [(''name'', JStr ''x'')],
                                     JDict [(''id'', JStr ''a'')]])) None ALL_TYPES start_world
     = (Inr [plain_model ''a'' ''text'', plain_model ''a'' ''image'', plain_model ''a'' ''code'',
             plain_model ''b'' ''text'', plain_model ''b'' ''image'', plain_model ''b'' ''code''],
        start_world\<lparr>calls := 3\<rparr>)"
  by (simp add: client_eval normalizer_defs)

lemma fetch_for_type_ok:
  "fetch_models_for_type B (net_ok (catalog raws)) t (start_world\<lparr>calls := n\<rparr>)
     = (raws, start_world\<lparr>calls := Suc n\<rparr>)"
  by (simp add: fetch_models_for_type_def fetch_def fetch_body_def response_outcome_def
      net_ok_def catalog_def dict_get_default_def retry_with_backoff_def default_retry_def
      start_world_def eval_nat_numeral)

text \<open>
  C3, without deduplication. The list a fetch call returns is what \<open>_parse_models\<close> makes
  of the raw records the call resolves: one entry for every resolved record with a
  non-empty string id, with that id, in ascending order of the ids, so that no two entries
  share an id exactly when no two of these records do. Without a cache the resolved
  records are the ones gathered from the requests; when all partitions are requested and
  the three fetched lists are annotated without an exception, the ids of the result are
  those of the three lists together, each id once for every record that carries it in
  every partition that returns it.
\<close>

theorem result_ids_not_deduplicated:
  "(fetch_models B net cache mt w = (Inr ms, w') \<longrightarrow>
      (\<exists>raws. resolved_raw_models B net cache mt w = (Inr (JList raws), w')
          \<and> map model_id ms = sort (valid_ids raws)
          \<and> (distinct (map model_id ms) \<longleftrightarrow> distinct (valid_ids raws))))
   \<and> resolved_raw_models B net None mt w
       = (Inr (JList (fst (fst (gather B net mt w)))), snd (gather B net mt w))
   \<and> (fetch_models_for_type B net ''text'' w = (f1, w1)
        \<and> fetch_models_for_type B net ''image'' w1 = (f2, w2)
        \<and> fetch_models_for_type B net ''code'' w2 = (f3, w3)
        \<and> snd (annotate ''text'' f1) = None \<and> snd (annotate ''image'' f2) = None
        \<and> snd (annotate ''code'' f3) = None
        \<and> fetch_models B net None ALL_TYPES w = (Inr ms, w') \<longrightarrow>
      map model_id ms = sort (valid_ids f1 @ valid_ids f2 @ valid_ids f3))"
proof -
  have first: "\<exists>raws. resolved_raw_models B net cache mt w = (Inr (JList raws), w')
          \<and> map model_id ms = sort (valid_ids raws)
          \<and> (distinct (map model_id ms) \<longleftrightarrow> distinct (valid_ids raws))"
    if "fetch_models B net cache mt w = (Inr ms, w')"
  proof -
    from fetch_models_resolved_list[OF that] obtain raws where
      r: "resolved_raw_models B net cache mt w = (Inr (JList raws), w')"
      and p: "parse_models B (JList raws) mt = Inr ms"
      by blast
    have ids: "map model_id ms = sort (valid_ids raws)" using p by (rule parse_models_ids)
    then have "distinct (map model_id ms) \<longleftrightarrow> distinct (valid_ids raws)" by simp
    with r ids show ?thesis by blast
  qed
  have third: "map model_id ms = sort (valid_ids f1 @ valid_ids f2 @ valid_ids f3)"
    if f: "fetch_models_for_type B net ''text'' w = (f1, w1)"
       "fetch_models_for_type B net ''image'' w1 = (f2, w2)"
       "fetch_models_for_type B net ''code'' w2 = (f3, w3)"
      and a: "snd (annotate ''text'' f1) = None" "snd (annotate ''image'' f2) = None"
       "snd (annotate ''code'' f3) = None"
      and m: "fetch_models B net None ALL_TYPES w = (Inr ms, w')"
  proof -
    let ?raws = "fst (annotate ''text'' f1) @ fst (annotate ''image'' f2) @ fst (annotate ''code'' f3)"
    have g: "gather B net ALL_TYPES w = ((?raws, None), w3)"
      using f a by (rule gather_all_partitions)
    from fetch_models_resolved_list[OF m] obtain raws where
      r: "resolved_raw_models B net None ALL_TYPES w = (Inr (JList raws), w')"
      and p: "parse_models B (JList raws) ALL_TYPES = Inr ms"
      by blast
    from r g have "raws = ?raws" by (simp add: resolved_uncached)
    with parse_models_ids[OF p] show ?thesis
      by (simp add: valid_ids_append valid_ids_annotate)
  qed
  show ?thesis using first third resolved_uncached by blast
qed

text \<open>
  All partitions are requested and each request returns the records \<open>b\<close>, one without an
  id, and \<open>a\<close>: the result has \<open>a\<close> three times and then \<open>b\<close> three times.
\<close>

theorem result_ids_not_deduplicated_witness:
  "\<forall>B. fetch_models B (net_ok (catalog [JDict [(''id'', JStr ''b'')], JDict [(''name'', JStr ''x'')],
                                     JDict [(''id'', JStr ''a'')]])) None ALL_TYPES start_world
     = (Inr [plain_model ''a'' ''text'', plain_model ''a'' ''image'', plain_model ''a'' ''code'',
             plain_model ''b'' ''text'', plain_model ''b'' ''image'', plain_model ''b'' ''code''],
        start_world\<lparr>calls := 3\<rparr>)
   \<and> map model_id
        [plain_model ''a'' ''text'', plain_model ''a'' ''image'', plain_model ''a'' ''code'',
         plain_model ''b'' ''text'', plain_model ''b'' ''image'', plain_model ''b'' ''code'']
     = sort ([''b'', ''a''] @ [''b'', ''a''] @ [''b'', ''a''])
   \<and> valid_ids [JDict [(''id'', JStr ''b'')], JDict [(''name'', JStr ''x'')],
                  JDict [(''id'', JStr ''a'')]] = [''b'', ''a'']"
proof
  fix B
  let ?raws = "[JDict [(''id'', JStr ''b'')], JDict [(''name'', JStr ''x'')], JDict [(''id'', JStr ''a'')]]"
  let ?net = "net_ok (catalog ?raws)"
  let ?ms = "[plain_model ''a'' ''text'', plain_model ''a'' ''image'', plain_model ''a'' ''code'',
         plain_model ''b'' ''text'', plain_model ''b'' ''image'', plain_model ''b'' ''code'']"
  note m = fetch_all_two_unsorted[of B]
  have f1: "fetch_models_for_type B ?net ''text'' start_world = (?raws, start_world\<lparr>calls := 1\<rparr>)"
    using fetch_for_type_ok[of B ?raws "''text''" 0] by (simp add: start_world_def)
  have f2: "fetch_models_for_type B ?net ''image'' (start_world\<lparr>calls := 1\<rparr>)
      = (?raws, start_world\<lparr>calls := 2\<rparr>)"
    using fetch_for_type_ok[of B ?raws "''image''" 1] by (simp add: eval_nat_numeral)
  have f3: "fetch_models_for_type B ?net ''code'' (start_world\<lparr>calls := 2\<rparr>)
      = (?raws, start_world\<lparr>calls := 3\<rparr>)"
    using fetch_for_type_ok[of B ?raws "''code''" 2] by (simp add: eval_nat_numeral)
  have a: "snd (annotate t ?raws) = None" for t by simp
  have v: "valid_ids ?raws = [''b'', ''a'']"
    by (simp add: valid_ids_def List.map_filter_def dict_get_def)
  from result_ids_not_deduplicated[of B ?net None ALL_TYPES start_world ?ms "start_world\<lparr>calls := 3\<rparr>"
      ?raws "start_world\<lparr>calls := 1\<rparr>" ?raws "start_world\<lparr>calls := 2\<rparr>" ?raws
      "start_world\<lparr>calls := 3\<rparr>"] m f1 f2 f3 a
  have "map model_id ?ms = sort (valid_ids ?raws @ valid_ids ?raws @ valid_ids ?raws)"
    by blast
  with m v show "fetch_models B ?net None ALL_TYPES start_world = (Inr ?ms, start_world\<lparr>calls := 3\<rparr>)
     \<and> map model_id ?ms = sort ([''b'', ''a''] @ [''b'', ''a''] @ [''b'', ''a''])
     \<and> valid_ids ?raws = [''b'', ''a'']"
    by simp
qed

text \<open>
  C9. Every list a fetch call returns is sorted by id in ascending order (ids compare as
  Python strings do, lexicographically). The order is the client's: the list is the stable
  sort by id of the entries normalized from the resolved raw records in their order, a
  function of these records alone.
\<close>

theorem fetch_models_sorted:
  assumes "fetch_models B net cache mt w = (Inr ms, w')"
  shows "sorted (map model_id ms)
       \<and> (\<exists>raw raws models. py_iter raw = Inr raws
             \<and> parse_loop B (if mt \<noteq> ALL_TYPES then type_value mt else ''text'') raws = Inr models
             \<and> ms = sort_key model_id models)"
proof -
  from assms obtain raw where raw: "parse_models B raw mt = Inr ms"
    using fetch_models_parse by blast
  from parse_models_sort_key[OF raw] obtain raws models where
    m: "py_iter raw = Inr raws"
       "parse_loop B (if mt \<noteq> ALL_TYPES then type_value mt else ''text'') raws = Inr models"
       "ms = sort_key model_id models"
    by blast
  from m(3) have "sorted (map model_id ms)" by simp
  with m show ?thesis by blast
qed

text \<open>The catalog lists \<open>b\<close> before \<open>a\<close>; the result has \<open>a\<close> first.\<close>

theorem fetch_models_sorted_witness:
  "\<forall>B. fetch_models B (net_ok (catalog [JDict [(''id'', JStr ''b'')], JDict [(''name'', JStr ''x'')],
                                     JDict [(''id'', JStr ''a'')]])) None TEXT start_world
     = (Inr [plain_model ''a'' ''text'', plain_model ''b'' ''text''], start_world\<lparr>calls := 1\<rparr>)
   \<and> sorted (map model_id [plain_model ''a'' ''text'', plain_model ''b'' ''text''])
   \<and> map model_id [plain_model ''a'' ''text'', plain_model ''b'' ''text''] = [''a'', ''b'']"
proof
  fix B
  let ?raws = "[JDict [(''id'', JStr ''b'')], JDict [(''name'', JStr ''x'')], JDict [(''id'', JStr ''a'')]]"
  let ?ms = "[plain_model ''a'' ''text'', plain_model ''b'' ''text'']"
  note f = fetch_two_unsorted[of B]
  from fetch_models_sorted[OF f] f
  show "fetch_models B (net_ok (catalog ?raws)) None TEXT start_world = (Inr ?ms, start_world\<lparr>calls := 1\<rparr>)
   \<and> sorted (map model_id ?ms) \<and> map model_id ?ms = [''a'', ''b'']"
    by (simp add: plain_model_def)
qed

text \<open>
  C10. A fresh cache hit whose data is falsy does not end the call: when \<open>get\<close> returns
  \<open>(d, True)\<close> with \<open>d\<close> falsy, \<open>fetch_models\<close> continues with the live fetch from the
  state \<open>get\<close> left and makes at least one request, exactly as it does whenever \<open>get\<close>
  reports no fresh hit: then too the call is the live fetch from the state \<open>get\<close> left.
\<close>

theorem falsy_fresh_cache_goes_live:
  assumes "CacheManager_get c (''models_'' @ type_value mt) w = (Inr (d, True), w1)"
    and "\<not> truthy d"
  shows "fetch_models B net (Some c) mt w = live_fetch B net (Some c) mt w1
       \<and> calls w < calls (snd (fetch_models B net (Some c) mt w))
       \<and> (\<forall>w0 d0 w2. CacheManager_get c (''models_'' @ type_value mt) w0 = (Inr (d0, False), w2) \<longrightarrow>
            fetch_models B net (Some c) mt w0 = live_fetch B net (Some c) mt w2)"
proof -
  have eq: "fetch_models B net (Some c) mt w = live_fetch B net (Some c) mt w1"
    using assms by (simp add: fetch_models_def)
  have "calls w1 = calls w"
    using CacheManager_get_calls[of c "''models_'' @ type_value mt" w] assms(1) by simp
  then have lt: "calls w < calls (snd (fetch_models B net (Some c) mt w))"
    using live_fetch_calls[of w1 B net "Some c" mt] eq by simp
  have same: "fetch_models B net (Some c) mt w0 = live_fetch B net (Some c) mt w2"
    if "CacheManager_get c (''models_'' @ type_value mt) w0 = (Inr (d0, False), w2)" for w0 d0 w2
    using that by (simp add: fetch_models_def)
  show ?thesis using eq lt same by blast
qed

text \<open>
  The cache file holds an empty list written 100 s ago: the catalog is fetched. With a
  file written an hour ago, no longer fresh, the call takes the same path and returns the
  same list.
\<close>

theorem falsy_fresh_cache_goes_live_witness:
  "\<forall>B. CacheManager_get default_cache (''models_'' @ type_value TEXT)
         (cached_world default_cache ''models_text'' 0 (Some (JList [])) 100)
       = (Inr (JList [], True), (cached_world default_cache ''models_text'' 0 (Some (JList [])) 100)\<lparr>ticks := 1\<rparr>)
   \<and> \<not> truthy (JList [])
   \<and> fetch_models B (net_ok (catalog [JDict [(''id'', JStr ''a'')]])) (Some default_cache) TEXT
         (cached_world default_cache ''models_text'' 0 (Some (JList [])) 100)
       = live_fetch B (net_ok (catalog [JDict [(''id'', JStr ''a'')]])) (Some default_cache) TEXT
           ((cached_world default_cache ''models_text'' 0 (Some (JList [])) 100)\<lparr>ticks := 1\<rparr>)
   \<and> fst (fetch_models B (net_ok (catalog [JDict [(''id'', JStr ''a'')]])) (Some default_cache) TEXT
         (cached_world default_cache ''models_text'' 0 (Some (JList [])) 100))
       = Inr [plain_model ''a'' ''text'']
   \<and> calls (snd (fetch_models B (net_ok (catalog [JDict [(''id'', JStr ''a'')]])) (Some default_cache) TEXT
         (cached_world default_cache ''models_text'' 0 (Some (JList [])) 100))) = 1
   \<and> CacheManager_get default_cache (''models_'' @ type_value TEXT)
         (cached_world default_cache ''models_text'' 0 (Some (JList [JInt 1])) 3600)
       = (Inr (JList [JInt 1], False),
          (cached_world default_cache ''models_text'' 0 (Some (JList [JInt 1])) 3600)\<lparr>ticks := 1\<rparr>)
   \<and> fetch_models B (net_ok (catalog [JDict [(''id'', JStr ''a'')]])) (Some default_cache) TEXT
         (cached_world default_cache ''models_text'' 0 (Some (JList [JInt 1])) 3600)
       = live_fetch B (net_ok (catalog [JDict [(''id'', JStr ''a'')]])) (Some default_cache) TEXT
           ((cached_world default_cache ''models_text'' 0 (Some (JList [JInt 1])) 3600)\<lparr>ticks := 1\<rparr>)
   \<and> fst (fetch_models B (net_ok (catalog [JDict [(''id'', JStr ''a'')]])) (Some default_cache) TEXT
         (cached_world default_cache ''models_text'' 0 (Some (JList [JInt 1])) 3600))
       = Inr [plain_model ''a'' ''text'']"
proof
  fix B
  let ?w = "cached_world default_cache ''models_text'' 0 (Some (JList [])) 100"
  let ?ws = "cached_world default_cache ''models_text'' 0 (Some (JList [JInt 1])) 3600"
  let ?net = "net_ok (catalog [JDict [(''id'', JStr ''a'')]])"
  have g: "CacheManager_get default_cache (''models_'' @ type_value TEXT) ?w
       = (Inr (JList [], True), ?w\<lparr>ticks := 1\<rparr>)"
    by (simp add: CacheManager_get_def cached_world_def path_stat_def json_load_def time_time_def
        default_cache_def cache_path_def)
  have gs: "CacheManager_get default_cache (''models_'' @ type_value TEXT) ?ws
       = (Inr (JList [JInt 1], False), ?ws\<lparr>ticks := 1\<rparr>)"
    by (simp add: CacheManager_get_def cached_world_def path_stat_def json_load_def time_time_def
        default_cache_def cache_path_def)
  have t: "\<not> truthy (JList [])" by simp
  have r: "fst (live_fetch B ?net (Some default_cache) TEXT (?w\<lparr>ticks := 1\<rparr>))
       = Inr [plain_model ''a'' ''text'']"
    "calls (snd (live_fetch B ?net (Some default_cache) TEXT (?w\<lparr>ticks := 1\<rparr>))) = 1"
    by (simp_all add: client_eval normalizer_defs cached_world_def)
  have rs: "fst (live_fetch B ?net (Some default_cache) TEXT (?ws\<lparr>ticks := 1\<rparr>))
       = Inr [plain_model ''a'' ''text'']"
    by (simp add: client_eval normalizer_defs cached_world_def)
  note th = falsy_fresh_cache_goes_live[OF g t, of B ?net]
  from th have a: "fetch_models B ?net (Some default_cache) TEXT ?w
       = live_fetch B ?net (Some default_cache) TEXT (?w\<lparr>ticks := 1\<rparr>)" by blast
  from th gs have b: "fetch_models B ?net (Some default_cache) TEXT ?ws
       = live_fetch B ?net (Some default_cache) TEXT (?ws\<lparr>ticks := 1\<rparr>)" by blast
  show "CacheManager_get default_cache (''models_'' @ type_value TEXT) ?w
       = (Inr (JList [], True), ?w\<lparr>ticks := 1\<rparr>)
   \<and> \<not> truthy (JList [])
   \<and> fetch_models B ?net (Some default_cache) TEXT ?w
       = live_fetch B ?net (Some default_cache) TEXT (?w\<lparr>ticks := 1\<rparr>)
   \<and> fst (fetch_models B ?net (Some default_cache) TEXT ?w) = Inr [plain_model ''a'' ''text'']
   \<and> calls (snd (fetch_models B ?net (Some default_cache) TEXT ?w)) = 1
   \<and> CacheManager_get default_cache (''models_'' @ type_value TEXT) ?ws
       = (Inr (JList [JInt 1], False), ?ws\<lparr>ticks := 1\<rparr>)
   \<and> fetch_models B ?net (Some default_cache) TEXT ?ws
       = live_fetch B ?net (Some default_cache) TEXT (?ws\<lparr>ticks := 1\<rparr>)
   \<and> fst (fetch_models B ?net (Some default_cache) TEXT ?ws) = Inr [plain_model ''a'' ''text'']"
    using g gs t a b r rs by simp
qed

end
